theory Spec2Isabelle
  imports Main
begin

section \<open>The data generator \<open>gen_data.py\<close>\<close>

text \<open>
  The script fills four tables (practices, doctors, licenses, doctor_practices) with
  random rows, in batches. Three things are outside the script and are made explicit here:
  \<^item> the random source (\<open>random\<close> and the one inside Faker) is an infinite tape of
    natural numbers, read one draw at a time; every theorem holds for every tape;
  \<^item> what Faker's text providers answer for a draw, and how many days a relative date
    string such as \<open>-15y\<close> stands for, are parameters of the environment;
  \<^item> the database is a sink with working and committed tables, whose operations may fail
    as an oracle on the operation number says.
  Dates are day numbers (\<open>date.toordinal()\<close>). The day of the run is one value for the
  whole run. Progress bars (\<open>tqdm\<close>) and the elapsed time are left out.
\<close>

subsection \<open>Rows\<close>

type_synonym date = int

record practice =
  pr_name :: string
  pr_address_line1 :: string
  pr_address_line2 :: "string option"
  pr_city :: string
  pr_state :: string
  pr_zip_code :: string
  pr_phone :: string
  pr_email :: string
  pr_website :: "string option"

record doctor =
  dr_first_name :: string
  dr_last_name :: string
  dr_specialty :: string
  dr_email :: string
  dr_phone :: string
  dr_date_of_birth :: date

record license =
  lic_doctor_id :: nat
  lic_number :: string
  lic_type :: string
  lic_state :: string
  lic_issue_date :: date
  lic_expiry_date :: date
  lic_status :: string

record association =
  dp_doctor_id :: nat
  dp_practice_id :: nat
  dp_role :: string
  dp_start_date :: date
  dp_end_date :: "date option"
  dp_is_primary :: bool
  dp_hours_per_week :: int

subsection \<open>The sink and the world\<close>

datatype py_error = ValueError | IndexError | EOFError | DbError | SystemExit nat

datatype 'a res = Ok 'a | Raise py_error

datatype stmt =
    Truncate
  | InsertPractices "practice list"
  | InsertDoctors "doctor list"
  | InsertLicenses "license list"
  | InsertDoctorPractices "association list"
  | Commit

datatype message =
    Out_connecting
  | Out_connect_error
  | Out_prompt
  | Out_cancelled
  | Out_cleared
  | Out_generating_practices
  | Out_generated_practices nat
  | Out_generating_doctors
  | Out_generated_doctors nat
  | Out_generating_licenses
  | Out_generated_licenses nat
  | Out_generating_associations
  | Out_generated_associations nat
  | Out_completed
  | Out_summary nat nat

text \<open>One trace holds what the run printed and what it asked of the sink, in order;
  a sink operation is logged with its outcome (\<open>True\<close>: it succeeded).\<close>

datatype event = Print message | Sql stmt bool | Close

record tables =
  t_practices :: "(nat \<times> practice) list"
  t_doctors :: "(nat \<times> doctor) list"
  t_licenses :: "license list"
  t_doctor_practices :: "association list"
  seq_practice :: nat
  seq_doctor :: nat

record world =
  tape :: "nat \<Rightarrow> nat"
  tpos :: nat
  stdin :: "string list"
  trace :: "event list"
  connectable :: bool
  fails :: "nat \<Rightarrow> bool"
  ops :: nat
  work :: tables
  durable :: tables

record env =
  fake_text :: "string \<Rightarrow> nat \<Rightarrow> string"
  fake_dob :: "nat \<Rightarrow> nat \<Rightarrow> nat \<Rightarrow> date"
  today :: date
  rel_days :: "string \<Rightarrow> int"
  NUM_DOCTORS :: nat
  NUM_PRACTICES :: nat
  MAX_LICENSES_PER_DOCTOR :: int
  MAX_PRACTICES_PER_DOCTOR :: int
  practice_batch_size :: nat
  doctor_batch_size :: nat
  license_batch_size :: nat
  association_batch_size :: nat

subsection \<open>Statements that may raise\<close>

type_synonym 'a py = "world \<Rightarrow> 'a res \<times> world"

definition py_return :: "'a \<Rightarrow> 'a py" where
  "py_return x w = (Ok x, w)"

definition py_raise :: "py_error \<Rightarrow> 'a py" where
  "py_raise e w = (Raise e, w)"

definition py_bind :: "'a py \<Rightarrow> ('a \<Rightarrow> 'b py) \<Rightarrow> 'b py" where
  "py_bind m f w = (case m w of (Ok x, w1) \<Rightarrow> f x w1 | (Raise e, w1) \<Rightarrow> (Raise e, w1))"

definition py_print :: "message \<Rightarrow> unit py" where
  "py_print l w = (Ok (), w\<lparr>trace := trace w @ [Print l]\<rparr>)"

definition py_input :: "string py" where
  "py_input w =
     (case stdin w of
        [] \<Rightarrow> (Raise EOFError, w\<lparr>trace := trace w @ [Print Out_prompt]\<rparr>)
      | l # ls \<Rightarrow> (Ok l, w\<lparr>trace := trace w @ [Print Out_prompt], stdin := ls\<rparr>))"

subsection \<open>The random module\<close>

definition draw :: "nat py" where
  "draw w = (Ok (tape w (tpos w)), w\<lparr>tpos := tpos w + 1\<rparr>)"

text \<open>\<open>random.randint(a, b)\<close>: any integer of \<open>[a, b]\<close>; ValueError on an empty range.\<close>

definition random_randint :: "int \<Rightarrow> int \<Rightarrow> int py" where
  "random_randint a b =
     (if b < a then py_raise ValueError
      else py_bind draw (\<lambda>k. py_return (a + int (k mod nat (b - a + 1)))))"

text \<open>\<open>random.choice(seq)\<close>: any element; IndexError on an empty sequence.\<close>

definition random_choice :: "'a list \<Rightarrow> 'a py" where
  "random_choice xs =
     (if xs = [] then py_raise IndexError
      else py_bind draw (\<lambda>k. py_return (xs ! (k mod length xs))))"

text \<open>\<open>random.random()\<close> is \<open>u / 2^53\<close> for an integer \<open>0 \<le> u < 2^53\<close>; the model
  returns \<open>u\<close>, and \<open>below u n d\<close> is the test \<open>random.random() < n/d\<close>.\<close>

definition random_random :: "nat py" where
  "random_random = py_bind draw (\<lambda>k. py_return (k mod 9007199254740992))"

definition below :: "nat \<Rightarrow> nat \<Rightarrow> nat \<Rightarrow> bool" where
  "below u n d = (d * u < n * 9007199254740992)"

text \<open>\<open>random.sample(population, k)\<close>: \<open>k\<close> positions of the population without
  replacement, in the order drawn; ValueError when \<open>k\<close> is negative or larger than the
  population.\<close>

fun sample_loop :: "'a list \<Rightarrow> nat \<Rightarrow> 'a list py" where
  "sample_loop pool 0 = py_return []"
| "sample_loop pool (Suc k) =
     py_bind draw (\<lambda>j.
       let i = j mod length pool in
       py_bind (sample_loop (take i pool @ drop (Suc i) pool) k) (\<lambda>rest.
       py_return (pool ! i # rest)))"

definition random_sample :: "'a list \<Rightarrow> int \<Rightarrow> 'a list py" where
  "random_sample population k =
     (if k < 0 \<or> int (length population) < k then py_raise ValueError
      else sample_loop population (nat k))"

text \<open>\<open>random.choices(population, weights=ws)[0]\<close>, the weights given in hundredths:
  the first element whose cumulative weight exceeds \<open>random() * total\<close>, the last
  element at the latest.\<close>

fun cumulative :: "nat \<Rightarrow> nat list \<Rightarrow> nat list" where
  "cumulative acc [] = []"
| "cumulative acc (x # xs) = (acc + x) # cumulative (acc + x) xs"

definition random_choices1 :: "'a list \<Rightarrow> nat list \<Rightarrow> 'a py" where
  "random_choices1 population ws =
     (if length ws \<noteq> length population then py_raise ValueError
      else if population = [] then py_raise IndexError
      else py_bind random_random (\<lambda>u.
        let cum = cumulative 0 ws;
            i = length (takeWhile (\<lambda>c. c * 9007199254740992 \<le> u * last cum) (butlast cum))
        in py_return (population ! i)))"

subsection \<open>Faker\<close>

text \<open>A text provider (\<open>fake.company()\<close>, \<open>fake.email()\<close>, ...) answers some string
  for each draw: \<open>fake_text\<close> of the environment, by the provider's name.\<close>

definition fake :: "env \<Rightarrow> string \<Rightarrow> string py" where
  "fake E provider = py_bind draw (\<lambda>k. py_return (fake_text E provider k))"

definition fake_date_of_birth :: "env \<Rightarrow> nat \<Rightarrow> nat \<Rightarrow> date py" where
  "fake_date_of_birth E minimum_age maximum_age =
     py_bind draw (\<lambda>k. py_return (fake_dob E minimum_age maximum_age k))"

text \<open>\<open>numerify\<close> puts a random digit for every \<open>#\<close>, \<open>lexify\<close> a random ASCII letter
  for every \<open>?\<close>; other characters are kept.\<close>

definition digits :: string where
  "digits = ''0123456789''"

definition ascii_letters :: string where
  "ascii_letters = ''abcdefghijklmnopqrstuvwxyzABCDEFGHIJKLMNOPQRSTUVWXYZ''"

fun fake_numerify :: "string \<Rightarrow> string py" where
  "fake_numerify [] = py_return []"
| "fake_numerify (c # cs) =
     (if c = CHR ''#'' then
        py_bind (random_choice digits) (\<lambda>d.
        py_bind (fake_numerify cs) (\<lambda>rest. py_return (d # rest)))
      else py_bind (fake_numerify cs) (\<lambda>rest. py_return (c # rest)))"

fun fake_lexify :: "string \<Rightarrow> string py" where
  "fake_lexify [] = py_return []"
| "fake_lexify (c # cs) =
     (if c = CHR ''?'' then
        py_bind (random_choice ascii_letters) (\<lambda>d.
        py_bind (fake_lexify cs) (\<lambda>rest. py_return (d # rest)))
      else py_bind (fake_lexify cs) (\<lambda>rest. py_return (c # rest)))"

text \<open>A date argument is a date or a string; \<open>today\<close> and \<open>now\<close> are the day of the
  run, any other string is an offset in days from it.\<close>

datatype date_arg = On date | Rel string

fun parse_date :: "env \<Rightarrow> date_arg \<Rightarrow> date" where
  "parse_date E (On d) = d"
| "parse_date E (Rel s) =
     (if s = ''today'' \<or> s = ''now'' then today E else today E + rel_days E s)"

text \<open>\<open>fake.date_between(start_date, end_date)\<close>: any date from the start to the end,
  both included; ValueError when the start is after the end.\<close>

definition fake_date_between :: "env \<Rightarrow> date_arg \<Rightarrow> date_arg \<Rightarrow> date py" where
  "fake_date_between E start_date end_date =
     random_randint (parse_date E start_date) (parse_date E end_date)"

subsection \<open>The sink\<close>

text \<open>A statement succeeds unless the oracle fails the operation of that number; an
  INSERT with no row is a syntax error. A failed statement changes no table.\<close>

fun apply_stmt :: "stmt \<Rightarrow> tables \<times> tables \<Rightarrow> tables \<times> tables" where
  "apply_stmt Truncate (wk, du) =
     (wk\<lparr>t_practices := [], t_doctors := [], t_licenses := [], t_doctor_practices := [],
         seq_practice := 1, seq_doctor := 1\<rparr>, du)"
| "apply_stmt (InsertPractices rows) (wk, du) =
     (wk\<lparr>t_practices := t_practices wk @ zip [seq_practice wk ..< seq_practice wk + length rows] rows,
         seq_practice := seq_practice wk + length rows\<rparr>, du)"
| "apply_stmt (InsertDoctors rows) (wk, du) =
     (wk\<lparr>t_doctors := t_doctors wk @ zip [seq_doctor wk ..< seq_doctor wk + length rows] rows,
         seq_doctor := seq_doctor wk + length rows\<rparr>, du)"
| "apply_stmt (InsertLicenses rows) (wk, du) = (wk\<lparr>t_licenses := t_licenses wk @ rows\<rparr>, du)"
| "apply_stmt (InsertDoctorPractices rows) (wk, du) =
     (wk\<lparr>t_doctor_practices := t_doctor_practices wk @ rows\<rparr>, du)"
| "apply_stmt Commit (wk, du) = (wk, wk)"

fun malformed :: "stmt \<Rightarrow> bool" where
  "malformed (InsertPractices rows) = (rows = [])"
| "malformed (InsertDoctors rows) = (rows = [])"
| "malformed (InsertLicenses rows) = (rows = [])"
| "malformed (InsertDoctorPractices rows) = (rows = [])"
| "malformed s = False"

definition sql :: "stmt \<Rightarrow> unit py" where
  "sql s w =
     (if fails w (ops w) \<or> malformed s
      then (Raise DbError, w\<lparr>trace := trace w @ [Sql s False], ops := ops w + 1\<rparr>)
      else (Ok (), w\<lparr>trace := trace w @ [Sql s True], ops := ops w + 1,
                     work := fst (apply_stmt s (work w, durable w)),
                     durable := snd (apply_stmt s (work w, durable w))\<rparr>))"

text \<open>\<open>INSERT ... RETURNING id\<close> followed by \<open>fetchall()\<close>: the identifiers the sink
  gave to the rows, in the order of the rows.\<close>

definition insert_practices_returning :: "practice list \<Rightarrow> nat list py" where
  "insert_practices_returning rows w =
     (case sql (InsertPractices rows) w of
        (Ok u, w1) \<Rightarrow> (Ok [seq_practice (work w) ..< seq_practice (work w) + length rows], w1)
      | (Raise e, w1) \<Rightarrow> (Raise e, w1))"

definition insert_doctors_returning :: "doctor list \<Rightarrow> nat list py" where
  "insert_doctors_returning rows w =
     (case sql (InsertDoctors rows) w of
        (Ok u, w1) \<Rightarrow> (Ok [seq_doctor (work w) ..< seq_doctor (work w) + length rows], w1)
      | (Raise e, w1) \<Rightarrow> (Raise e, w1))"

subsection \<open>Strings\<close>

definition lower_char :: "char \<Rightarrow> char" where
  "lower_char c =
     (let n = (of_char c :: nat) in if 65 \<le> n \<and> n \<le> 90 then char_of (n + 32) else c)"

definition lower :: "string \<Rightarrow> string" where
  "lower s = map lower_char s"

definition replace_char :: "char \<Rightarrow> string \<Rightarrow> string \<Rightarrow> string" where
  "replace_char old new s = concat (map (\<lambda>c. if c = old then new else [c]) s)"

subsection \<open>Vocabularies\<close>

definition SPECIALTIES :: "string list" where
  "SPECIALTIES =
     [''Family Medicine'', ''Internal Medicine'', ''Pediatrics'', ''Cardiology'',
      ''Dermatology'', ''Endocrinology'', ''Gastroenterology'', ''Neurology'',
      ''Obstetrics and Gynecology'', ''Oncology'', ''Ophthalmology'', ''Orthopedics'',
      ''Psychiatry'', ''Radiology'', ''Surgery'', ''Urology'', ''Emergency Medicine'',
      ''Anesthesiology'', ''Pathology'', ''Physical Medicine'', ''Rheumatology'']"

definition LICENSE_TYPES :: "string list" where
  "LICENSE_TYPES =
     [''Medical License'', ''DEA'', ''Board Certification'', ''State Controlled Substance'']"

definition STATES :: "string list" where
  "STATES =
     [''AL'', ''AK'', ''AZ'', ''AR'', ''CA'', ''CO'', ''CT'', ''DE'', ''FL'', ''GA'',
      ''HI'', ''ID'', ''IL'', ''IN'', ''IA'', ''KS'', ''KY'', ''LA'', ''ME'', ''MD'',
      ''MA'', ''MI'', ''MN'', ''MS'', ''MO'', ''MT'', ''NE'', ''NV'', ''NH'', ''NJ'',
      ''NM'', ''NY'', ''NC'', ''ND'', ''OH'', ''OK'', ''OR'', ''PA'', ''RI'', ''SC'',
      ''SD'', ''TN'', ''TX'', ''UT'', ''VT'', ''VA'', ''WA'', ''WV'', ''WI'', ''WY'']"

definition LICENSE_STATUSES :: "string list" where
  "LICENSE_STATUSES = [''Active'', ''Expired'', ''Suspended'', ''Revoked'']"

definition ROLES :: "string list" where
  "ROLES =
     [''Primary Care Physician'', ''Specialist'', ''Consultant'', ''Department Head'',
      ''Medical Director'', ''Attending Physician'', ''Resident'', ''Fellow'']"

definition PRACTICE_KINDS :: "string list" where
  "PRACTICE_KINDS =
     [''Medical Center'', ''Clinic'', ''Healthcare'', ''Hospital'', ''Medical Group'',
      ''Physicians'']"

text \<open>The constants the script sets; the batch sizes are the \<open>batch_size\<close> of the four
  generating functions.\<close>

definition script_constants :: "env \<Rightarrow> bool" where
  "script_constants E =
     (NUM_DOCTORS E = 1000000 \<and> NUM_PRACTICES E = 1000 \<and>
      MAX_LICENSES_PER_DOCTOR E = 3 \<and> MAX_PRACTICES_PER_DOCTOR E = 3 \<and>
      practice_batch_size E = 100 \<and> doctor_batch_size E = 10000 \<and>
      license_batch_size E = 100000 \<and> association_batch_size E = 100000)"

subsection \<open>One row of each table\<close>

text \<open>The tuple built in the loop of \<open>generate_practices\<close>, its fields drawn in the
  order Python evaluates them.\<close>

definition new_practice :: "env \<Rightarrow> practice py" where
  "new_practice E =
     py_bind (fake E ''company'') (\<lambda>company.
     py_bind (random_choice PRACTICE_KINDS) (\<lambda>kind.
     let practice_name = company @ '' '' @ kind in
     py_bind (fake E ''street_address'') (\<lambda>line1.
     py_bind random_random (\<lambda>u1.
     py_bind (if below u1 3 10
              then py_bind (fake E ''secondary_address'') (\<lambda>s. py_return (Some s))
              else py_return None) (\<lambda>line2.
     py_bind (fake E ''city'') (\<lambda>city.
     py_bind (random_choice STATES) (\<lambda>st.
     py_bind (fake E ''zipcode'') (\<lambda>zipcode.
     py_bind (fake E ''phone_number'') (\<lambda>phone_number.
     py_bind (fake E ''company_email'') (\<lambda>company_email.
     py_bind random_random (\<lambda>u2.
     py_return
       \<lparr>pr_name = practice_name,
        pr_address_line1 = line1,
        pr_address_line2 = line2,
        pr_city = city,
        pr_state = st,
        pr_zip_code = take 10 zipcode,
        pr_phone = take 20 phone_number,
        pr_email = take 255 company_email,
        pr_website =
          (if below u2 8 10
           then Some (take 255 (''www.'' @ replace_char CHR '' '' [] (lower practice_name) @ ''.com''))
           else None)\<rparr>)))))))))))"

text \<open>The tuple built in the loop of \<open>generate_doctors\<close>.\<close>

definition new_doctor :: "env \<Rightarrow> doctor py" where
  "new_doctor E =
     py_bind (fake E ''first_name'') (\<lambda>first_name.
     py_bind (fake E ''last_name'') (\<lambda>last_name.
     py_bind (random_choice SPECIALTIES) (\<lambda>specialty.
     py_bind (fake E ''email'') (\<lambda>email.
     py_bind (fake E ''phone_number'') (\<lambda>phone_number.
     py_bind (fake_date_of_birth E 25 70) (\<lambda>dob.
     py_return
       \<lparr>dr_first_name = first_name,
        dr_last_name = last_name,
        dr_specialty = specialty,
        dr_email = email,
        dr_phone = take 20 phone_number,
        dr_date_of_birth = dob\<rparr>))))))"

text \<open>The body of the inner loop of \<open>generate_licenses\<close>, up to the tuple.\<close>

definition new_license :: "env \<Rightarrow> nat \<Rightarrow> license py" where
  "new_license E doctor_id =
     py_bind (random_choice STATES) (\<lambda>st.
     py_bind (fake_date_between E (Rel ''-15y'') (Rel ''today'')) (\<lambda>issue_date.
     py_bind (random_randint (365 * 1) (365 * 10)) (\<lambda>days.
     let expiry_date = issue_date + days in
     py_bind (fake_numerify ''######'') (\<lambda>num.
     py_bind (fake_lexify ''???'') (\<lambda>lex.
     py_bind (random_choice LICENSE_TYPES) (\<lambda>ty.
     py_bind (random_choices1 LICENSE_STATUSES [80, 15, 3, 2]) (\<lambda>status.
     py_return
       \<lparr>lic_doctor_id = doctor_id,
        lic_number = st @ ''-'' @ num @ ''-'' @ lex,
        lic_type = ty,
        lic_state = st,
        lic_issue_date = issue_date,
        lic_expiry_date = expiry_date,
        lic_status = status\<rparr>)))))))"

text \<open>The body of the inner loop of \<open>generate_doctor_practices\<close>, up to the tuple;
  \<open>i\<close> is the index \<open>enumerate\<close> gives.\<close>

definition new_association :: "env \<Rightarrow> nat \<Rightarrow> nat \<Rightarrow> nat \<Rightarrow> association py" where
  "new_association E doctor_id i practice_id =
     py_bind (fake_date_between E (Rel ''-10y'') (Rel ''-1m'')) (\<lambda>start_date.
     py_bind random_random (\<lambda>u.
     py_bind (if below u 8 10 then py_return None
              else py_bind (fake_date_between E (On start_date) (Rel ''+2y''))
                     (\<lambda>d. py_return (Some d))) (\<lambda>end_date.
     py_bind (random_choice ROLES) (\<lambda>role.
     py_bind (random_randint 4 40) (\<lambda>hours.
     py_return
       \<lparr>dp_doctor_id = doctor_id,
        dp_practice_id = practice_id,
        dp_role = role,
        dp_start_date = start_date,
        dp_end_date = end_date,
        dp_is_primary = (i = 0),
        dp_hours_per_week = hours\<rparr>)))))"

subsection \<open>The four generating functions\<close>

fun practices_loop :: "env \<Rightarrow> nat list \<Rightarrow> nat list \<Rightarrow> practice list \<Rightarrow> nat list py" where
  "practices_loop E [] practice_ids practice_batch = py_return practice_ids"
| "practices_loop E (i # todo) practice_ids practice_batch =
     py_bind (new_practice E) (\<lambda>practice.
       let batch = practice_batch @ [practice] in
       if practice_batch_size E \<le> length batch \<or> int i = int (NUM_PRACTICES E) - 1 then
         py_bind (insert_practices_returning batch) (\<lambda>new_ids.
         py_bind (sql Commit) (\<lambda>_.
         practices_loop E todo (practice_ids @ new_ids) []))
       else practices_loop E todo practice_ids batch)"

definition generate_practices :: "env \<Rightarrow> nat list py" where
  "generate_practices E =
     py_bind (py_print Out_generating_practices) (\<lambda>_.
     py_bind (practices_loop E [0 ..< NUM_PRACTICES E] [] []) (\<lambda>practice_ids.
     py_bind (py_print (Out_generated_practices (length practice_ids))) (\<lambda>_.
     py_return practice_ids)))"

fun doctors_loop :: "env \<Rightarrow> nat list \<Rightarrow> nat list \<Rightarrow> doctor list \<Rightarrow> nat list py" where
  "doctors_loop E [] doctor_ids doctor_batch = py_return doctor_ids"
| "doctors_loop E (i # todo) doctor_ids doctor_batch =
     py_bind (new_doctor E) (\<lambda>doctor.
       let batch = doctor_batch @ [doctor] in
       if doctor_batch_size E \<le> length batch \<or> int i = int (NUM_DOCTORS E) - 1 then
         py_bind (insert_doctors_returning batch) (\<lambda>new_ids.
         py_bind (sql Commit) (\<lambda>_.
         doctors_loop E todo (doctor_ids @ new_ids) []))
       else doctors_loop E todo doctor_ids batch)"

definition generate_doctors :: "env \<Rightarrow> nat list py" where
  "generate_doctors E =
     py_bind (py_print Out_generating_doctors) (\<lambda>_.
     py_bind (doctors_loop E [0 ..< NUM_DOCTORS E] [] []) (\<lambda>doctor_ids.
     py_bind (py_print (Out_generated_doctors (length doctor_ids))) (\<lambda>_.
     py_return doctor_ids)))"

fun licenses_inner :: "env \<Rightarrow> nat \<Rightarrow> nat \<Rightarrow> license list \<Rightarrow> nat \<Rightarrow> (license list \<times> nat) py" where
  "licenses_inner E doctor_id 0 license_batch licenses_count =
     py_return (license_batch, licenses_count)"
| "licenses_inner E doctor_id (Suc n) license_batch licenses_count =
     py_bind (new_license E doctor_id) (\<lambda>license_info.
       let batch = license_batch @ [license_info]; count = licenses_count + 1 in
       if license_batch_size E \<le> length batch then
         py_bind (sql (InsertLicenses batch)) (\<lambda>_.
         py_bind (sql Commit) (\<lambda>_.
         licenses_inner E doctor_id n [] count))
       else licenses_inner E doctor_id n batch count)"

fun licenses_outer :: "env \<Rightarrow> nat list \<Rightarrow> license list \<Rightarrow> nat \<Rightarrow> (license list \<times> nat) py" where
  "licenses_outer E [] license_batch licenses_count =
     py_return (license_batch, licenses_count)"
| "licenses_outer E (doctor_id # rest) license_batch licenses_count =
     py_bind (random_randint 1 (MAX_LICENSES_PER_DOCTOR E)) (\<lambda>num_licenses.
     py_bind (licenses_inner E doctor_id (nat num_licenses) license_batch licenses_count)
       (\<lambda>(batch, count). licenses_outer E rest batch count))"

definition generate_licenses :: "env \<Rightarrow> nat list \<Rightarrow> unit py" where
  "generate_licenses E doctor_ids =
     py_bind (py_print Out_generating_licenses) (\<lambda>_.
     py_bind (licenses_outer E doctor_ids [] 0) (\<lambda>(license_batch, licenses_count).
     py_bind (if license_batch \<noteq> []
              then py_bind (sql (InsertLicenses license_batch)) (\<lambda>_. sql Commit)
              else py_return ()) (\<lambda>_.
     py_print (Out_generated_licenses licenses_count))))"

fun associations_inner ::
  "env \<Rightarrow> nat \<Rightarrow> nat \<Rightarrow> nat list \<Rightarrow> association list \<Rightarrow> nat \<Rightarrow> (association list \<times> nat) py" where
  "associations_inner E doctor_id i [] doctor_practice_batch associations_count =
     py_return (doctor_practice_batch, associations_count)"
| "associations_inner E doctor_id i (practice_id # rest) doctor_practice_batch associations_count =
     py_bind (new_association E doctor_id i practice_id) (\<lambda>association.
       let batch = doctor_practice_batch @ [association]; count = associations_count + 1 in
       if association_batch_size E \<le> length batch then
         py_bind (sql (InsertDoctorPractices batch)) (\<lambda>_.
         py_bind (sql Commit) (\<lambda>_.
         associations_inner E doctor_id (i + 1) rest [] count))
       else associations_inner E doctor_id (i + 1) rest batch count)"

fun associations_outer ::
  "env \<Rightarrow> nat list \<Rightarrow> nat list \<Rightarrow> association list \<Rightarrow> nat \<Rightarrow> (association list \<times> nat) py" where
  "associations_outer E [] practice_ids doctor_practice_batch associations_count =
     py_return (doctor_practice_batch, associations_count)"
| "associations_outer E (doctor_id # rest) practice_ids doctor_practice_batch associations_count =
     py_bind (random_randint 1 (MAX_PRACTICES_PER_DOCTOR E)) (\<lambda>num_practices.
     py_bind (random_sample practice_ids (min num_practices (int (length practice_ids))))
       (\<lambda>doctor_practices.
     py_bind (associations_inner E doctor_id 0 doctor_practices
                doctor_practice_batch associations_count)
       (\<lambda>(batch, count). associations_outer E rest practice_ids batch count)))"

definition generate_doctor_practices :: "env \<Rightarrow> nat list \<Rightarrow> nat list \<Rightarrow> unit py" where
  "generate_doctor_practices E doctor_ids practice_ids =
     py_bind (py_print Out_generating_associations) (\<lambda>_.
     py_bind (associations_outer E doctor_ids practice_ids [] 0)
       (\<lambda>(doctor_practice_batch, associations_count).
     py_bind (if doctor_practice_batch \<noteq> []
              then py_bind (sql (InsertDoctorPractices doctor_practice_batch)) (\<lambda>_. sql Commit)
              else py_return ()) (\<lambda>_.
     py_print (Out_generated_associations associations_count))))"

subsection \<open>The run\<close>

definition connect_to_db :: "unit py" where
  "connect_to_db w =
     (if connectable w then (Ok (), w)
      else py_bind (py_print Out_connect_error) (\<lambda>_. py_raise (SystemExit 1)) w)"

definition conn_close :: "unit py" where
  "conn_close w = (Ok (), w\<lparr>trace := trace w @ [Close]\<rparr>)"

definition clear_tables :: "unit py" where
  "clear_tables =
     py_bind (sql Truncate) (\<lambda>_.
     py_bind (sql Commit) (\<lambda>_.
     py_print Out_cleared))"

definition main :: "env \<Rightarrow> unit py" where
  "main E =
     py_bind (py_print Out_connecting) (\<lambda>_.
     py_bind connect_to_db (\<lambda>_.
     py_bind py_input (\<lambda>answer.
     if lower answer \<noteq> ''y'' then
       py_bind (py_print Out_cancelled) (\<lambda>_. conn_close)
     else
       py_bind clear_tables (\<lambda>_.
       py_bind (generate_practices E) (\<lambda>practice_ids.
       py_bind (generate_doctors E) (\<lambda>doctor_ids.
       py_bind (generate_licenses E doctor_ids) (\<lambda>_.
       py_bind (generate_doctor_practices E doctor_ids practice_ids) (\<lambda>_.
       py_bind conn_close (\<lambda>_.
       py_bind (py_print Out_completed) (\<lambda>_.
       py_print (Out_summary (NUM_DOCTORS E) (NUM_PRACTICES E))))))))))))"

section \<open>Properties of rows and runs\<close>

subsection \<open>What a row must satisfy\<close>

text \<open>A license: it expires 365 to 3650 days after its issue, and it was issued in the
  window from \<open>-15y\<close> to the day of the run.\<close>

definition license_dates_ok :: "env \<Rightarrow> license \<Rightarrow> bool" where
  "license_dates_ok E r =
     (lic_issue_date r < lic_expiry_date r \<and>
      365 \<le> lic_expiry_date r - lic_issue_date r \<and>
      lic_expiry_date r - lic_issue_date r \<le> 3650 \<and>
      today E + rel_days E ''-15y'' \<le> lic_issue_date r \<and>
      lic_issue_date r \<le> today E)"

text \<open>A license number: the row's state, a dash, six digits, a dash, three letters.\<close>

definition license_number_ok :: "license \<Rightarrow> bool" where
  "license_number_ok r =
     (let st = lic_state r; rest = drop (length st) (lic_number r) in
      st \<in> set STATES \<and> take (length st) (lic_number r) = st \<and> length rest = 11 \<and>
      rest ! 0 = CHR ''-'' \<and> set (take 6 (drop 1 rest)) \<subseteq> set digits \<and>
      rest ! 7 = CHR ''-'' \<and> set (drop 8 rest) \<subseteq> set ascii_letters)"

text \<open>An affiliation with an end date: what the code ensures (the end date is not before
  the start date and not after the \<open>+2y\<close> day, counted from the day of the run), and the
  two halves of what the specification says (strictly after the start date; within two
  years of the start date, here a generous 732 days).\<close>

definition association_dates_ok :: "env \<Rightarrow> association \<Rightarrow> bool" where
  "association_dates_ok E r =
     (case dp_end_date r of
        None \<Rightarrow> True
      | Some e \<Rightarrow> dp_start_date r \<le> e \<and> e \<le> today E + rel_days E ''+2y'')"

definition claimed_end_after_start :: "association \<Rightarrow> bool" where
  "claimed_end_after_start r =
     (case dp_end_date r of None \<Rightarrow> True | Some e \<Rightarrow> dp_start_date r < e)"

definition claimed_end_within_2y :: "association \<Rightarrow> bool" where
  "claimed_end_within_2y r =
     (case dp_end_date r of None \<Rightarrow> True | Some e \<Rightarrow> e \<le> dp_start_date r + 2 * 366)"



subsection \<open>The rows of one doctor\<close>

text \<open>The rows a stage added to a table, and among rows those of one doctor.\<close>

definition new_licenses :: "world \<Rightarrow> world \<Rightarrow> license list" where
  "new_licenses w w' = drop (length (t_licenses (work w))) (t_licenses (work w'))"

definition new_associations :: "world \<Rightarrow> world \<Rightarrow> association list" where
  "new_associations w w' =
     drop (length (t_doctor_practices (work w))) (t_doctor_practices (work w'))"

definition licenses_of :: "nat \<Rightarrow> license list \<Rightarrow> license list" where
  "licenses_of d rows = filter (\<lambda>r. lic_doctor_id r = d) rows"

definition affiliations_of :: "nat \<Rightarrow> association list \<Rightarrow> association list" where
  "affiliations_of d rows = filter (\<lambda>r. dp_doctor_id r = d) rows"

text \<open>What the rows generated in one pass of the outer loop, for one doctor, satisfy.\<close>

definition license_group_ok :: "env \<Rightarrow> nat \<Rightarrow> license list \<Rightarrow> bool" where
  "license_group_ok E d g =
     ((\<forall>r\<in>set g. lic_doctor_id r = d) \<and> 1 \<le> length g \<and>
      int (length g) \<le> MAX_LICENSES_PER_DOCTOR E)"

definition association_group_ok :: "env \<Rightarrow> nat list \<Rightarrow> nat \<Rightarrow> association list \<Rightarrow> bool" where
  "association_group_ok E practice_ids d g =
     ((\<forall>r\<in>set g. dp_doctor_id r = d) \<and>
      map dp_is_primary g = map (\<lambda>j. j = 0) [0 ..< length g] \<and>
      set (map dp_practice_id g) \<subseteq> set practice_ids \<and>
      (distinct practice_ids \<longrightarrow> distinct (map dp_practice_id g)) \<and>
      int (length g) \<le> min (MAX_PRACTICES_PER_DOCTOR E) (int (length practice_ids)) \<and>
      (practice_ids \<noteq> [] \<longrightarrow> g \<noteq> []))"

subsection \<open>The rows generated in sequence\<close>

text \<open>The rows that \<open>n\<close> calls of a generator in a row produce from a world, with no
  batching: what the batched loops are compared with.\<close>

fun generated :: "'a py \<Rightarrow> nat \<Rightarrow> world \<Rightarrow> 'a list" where
  "generated m 0 w = []"
| "generated m (Suc n) w =
     (case m w of (Ok x, w1) \<Rightarrow> x # generated m n w1 | (Raise e, w1) \<Rightarrow> [])"

subsection \<open>A small run to evaluate\<close>

text \<open>The offsets are those of one Faker version (a year is 365.24 days, and \<open>m\<close> is
  minutes, which a date rounds to the day before); no theorem depends on them.\<close>

definition demo_env :: env where
  "demo_env =
     \<lparr>fake_text = (\<lambda>p k. p @ ''-'' @ replicate (k mod 5) CHR ''x''),
      fake_dob = (\<lambda>a b k. 730000 - int (k mod 1000)),
      today = 740000,
      rel_days = (\<lambda>s. if s = ''-15y'' then - 5479 else if s = ''-10y'' then - 3653
                      else if s = ''-1m'' then - 1 else if s = ''+2y'' then 730 else 0),
      NUM_DOCTORS = 3, NUM_PRACTICES = 3,
      MAX_LICENSES_PER_DOCTOR = 3, MAX_PRACTICES_PER_DOCTOR = 3,
      practice_batch_size = 2, doctor_batch_size = 2,
      license_batch_size = 2, association_batch_size = 2\<rparr>"

definition empty_tables :: tables where
  "empty_tables =
     \<lparr>t_practices = [], t_doctors = [], t_licenses = [], t_doctor_practices = [],
      seq_practice = 1, seq_doctor = 1\<rparr>"

definition demo_world :: world where
  "demo_world =
     \<lparr>tape = (\<lambda>i. 7 * i * i + 3 * i + 1), tpos = 0, stdin = [''Y''], trace = [],
      connectable = True, fails = (\<lambda>n. False), ops = 0,
      work = empty_tables, durable = empty_tables\<rparr>"

text \<open>Two tapes on which the draw of \<open>random.random()\<close> for the end date is not
  below 0.8, and the end date drawn is the first, or the last, of its range.\<close>

definition same_day_world :: world where
  "same_day_world = demo_world\<lparr>tape := (\<lambda>i. if i = 3 then 9007199254740991 else 0)\<rparr>"

definition late_end_world :: world where
  "late_end_world =
     demo_world\<lparr>tape := (\<lambda>i. if i = 3 then 9007199254740991 else if i = 4 then 4383 else 0)\<rparr>"

subsection \<open>Predicates on statements\<close>

text \<open>\<open>returns m Q\<close>: whenever \<open>m\<close> returns a value, the value satisfies \<open>Q\<close>.
  \<open>gen_only m\<close>: \<open>m\<close> does nothing but read the tape.
  \<open>inv_post J m Q\<close>: \<open>m\<close> keeps \<open>J\<close> of the working tables, whether it returns or
  raises, and a value it returns satisfies \<open>Q\<close>.\<close>

definition returns :: "'a py \<Rightarrow> ('a \<Rightarrow> bool) \<Rightarrow> bool" where
  "returns m Q = (\<forall>w x w'. m w = (Ok x, w') \<longrightarrow> Q x)"

definition gen_only :: "'a py \<Rightarrow> bool" where
  "gen_only m = (\<forall>w r w'. m w = (r, w') \<longrightarrow> w' = w\<lparr>tpos := tpos w'\<rparr>)"

definition inv_post :: "(tables \<Rightarrow> bool) \<Rightarrow> 'a py \<Rightarrow> ('a \<Rightarrow> bool) \<Rightarrow> bool" where
  "inv_post J m Q =
     (\<forall>w r w'. J (work w) \<and> m w = (r, w') \<longrightarrow> J (work w') \<and> (\<forall>x. r = Ok x \<longrightarrow> Q x))"

text \<open>\<open>reads_tape m\<close>: what \<open>m\<close> returns and how far it advances the tape depend on
  the tape and the position only, and \<open>m\<close> changes nothing else.\<close>

definition reads_tape :: "'a py \<Rightarrow> bool" where
  "reads_tape m =
     (\<forall>w::world. \<exists>r k. \<forall>v. tape v = tape w \<and> tpos v = tpos w \<longrightarrow> m v = (r, v\<lparr>tpos := k\<rparr>))"


section \<open>Proofs\<close>

subsection \<open>Statements\<close>


lemma py_bind_return [simp]: "py_bind (py_return x) f = f x"
  by (rule ext) (simp add: py_bind_def py_return_def)

lemma py_bind_raise [simp]: "py_bind (py_raise e) f = py_raise e"
  by (rule ext) (simp add: py_bind_def py_raise_def)

lemma py_bind_Ok: "m w = (Ok x, w1) \<Longrightarrow> py_bind m f w = f x w1"
  by (simp add: py_bind_def)

lemma py_bind_Raise: "m w = (Raise e, w1) \<Longrightarrow> py_bind m f w = (Raise e, w1)"
  by (simp add: py_bind_def)

lemma py_bind_cases:
  assumes "py_bind m f w = (r, w')"
  obtains (first) e where "m w = (Raise e, w')" "r = Raise e"
        | (second) x w1 where "m w = (Ok x, w1)" "f x w1 = (r, w')"
  using assms by (auto simp: py_bind_def split: prod.splits res.splits)

lemma returnsD: "returns m Q \<Longrightarrow> m w = (Ok x, w') \<Longrightarrow> Q x"
  by (auto simp: returns_def)

lemma returns_bind:
  "returns m P \<Longrightarrow> (\<And>x. P x \<Longrightarrow> returns (f x) Q) \<Longrightarrow> returns (py_bind m f) Q"
  unfolding returns_def by (metis py_bind_cases res.distinct(1))

lemma returns_return: "Q x \<Longrightarrow> returns (py_return x) Q"
  by (simp add: returns_def py_return_def)

lemma returns_raise: "returns (py_raise e) Q"
  by (simp add: returns_def py_raise_def)

lemma returns_any: "returns m (\<lambda>_. True)"
  by (simp add: returns_def)

lemma returns_if:
  "(c \<Longrightarrow> returns a Q) \<Longrightarrow> (\<not> c \<Longrightarrow> returns b Q) \<Longrightarrow> returns (if c then a else b) Q"
  by simp

lemma returns_randint: "returns (random_randint a b) (\<lambda>x. a \<le> x \<and> x \<le> b)"
proof -
  have "a + int (k mod nat (b - a + 1)) \<le> b" if "a \<le> b" for k
  proof -
    have "k mod nat (b - a + 1) < nat (b - a + 1)" using that by simp
    then show ?thesis by linarith
  qed
  then show ?thesis
    by (auto simp: returns_def random_randint_def py_raise_def py_bind_def draw_def py_return_def)
qed

lemma returns_choice: "returns (random_choice xs) (\<lambda>x. x \<in> set xs)"
  by (auto simp: returns_def random_choice_def py_raise_def py_bind_def draw_def py_return_def)

lemma returns_date_between:
  "returns (fake_date_between E a b) (\<lambda>d. parse_date E a \<le> d \<and> d \<le> parse_date E b)"
  unfolding fake_date_between_def by (rule returns_randint)

lemma returns_numerify:
  "set p \<subseteq> {CHR ''#''} \<Longrightarrow>
   returns (fake_numerify p) (\<lambda>s. length s = length p \<and> set s \<subseteq> set digits)"
proof (induction p)
  case Nil
  show ?case by (simp add: returns_return)
next
  case (Cons c cs)
  then have c: "c = CHR ''#''" and cs: "set cs \<subseteq> {CHR ''#''}" by auto
  show ?case
    apply (simp only: fake_numerify.simps c simp_thms if_True)
    apply (rule returns_bind [OF returns_choice])
    apply (rule returns_bind [OF Cons.IH [OF cs]])
    apply (rule returns_return)
    apply simp
    done
qed

lemma returns_lexify:
  "set p \<subseteq> {CHR ''?''} \<Longrightarrow>
   returns (fake_lexify p) (\<lambda>s. length s = length p \<and> set s \<subseteq> set ascii_letters)"
proof (induction p)
  case Nil
  show ?case by (simp add: returns_return)
next
  case (Cons c cs)
  then have c: "c = CHR ''?''" and cs: "set cs \<subseteq> {CHR ''?''}" by auto
  show ?case
    apply (simp only: fake_lexify.simps c simp_thms if_True)
    apply (rule returns_bind [OF returns_choice])
    apply (rule returns_bind [OF Cons.IH [OF cs]])
    apply (rule returns_return)
    apply simp
    done
qed

lemma gen_only_bind: "gen_only m \<Longrightarrow> (\<And>x. gen_only (f x)) \<Longrightarrow> gen_only (py_bind m f)"
  unfolding gen_only_def
proof (intro allI impI)
  fix w r w'
  assume m: "\<forall>w r w'. m w = (r, w') \<longrightarrow> w' = w\<lparr>tpos := tpos w'\<rparr>"
    and f: "\<And>x. \<forall>w r w'. f x w = (r, w') \<longrightarrow> w' = w\<lparr>tpos := tpos w'\<rparr>"
    and run: "py_bind m f w = (r, w')"
  from run show "w' = w\<lparr>tpos := tpos w'\<rparr>"
  proof (cases rule: py_bind_cases)
    case (first e)
    with m show ?thesis by blast
  next
    case (second x w1)
    from m second(1) have 1: "w1 = w\<lparr>tpos := tpos w1\<rparr>" by blast
    from f second(2) have 2: "w' = w1\<lparr>tpos := tpos w'\<rparr>" by blast
    show ?thesis by (subst 2, subst 1) simp
  qed
qed

lemma gen_only_return: "gen_only (py_return x)"
  by (simp add: gen_only_def py_return_def)

lemma gen_only_raise: "gen_only (py_raise e)"
  by (simp add: gen_only_def py_raise_def)

lemma gen_only_if: "gen_only a \<Longrightarrow> gen_only b \<Longrightarrow> gen_only (if c then a else b)"
  by simp

lemma gen_only_draw: "gen_only draw"
  by (auto simp: gen_only_def draw_def)

lemmas gen_only_basic = gen_only_bind gen_only_return gen_only_raise gen_only_if gen_only_draw

lemma gen_only_randint: "gen_only (random_randint a b)"
  unfolding random_randint_def by (intro gen_only_basic)

lemma gen_only_choice: "gen_only (random_choice xs)"
  unfolding random_choice_def by (intro gen_only_basic)

lemma gen_only_random: "gen_only random_random"
  unfolding random_random_def by (intro gen_only_basic)

lemma gen_only_sample_loop: "gen_only (sample_loop pool k)"
  by (induction k arbitrary: pool) (simp_all add: Let_def gen_only_basic)

lemma gen_only_sample: "gen_only (random_sample xs k)"
  unfolding random_sample_def by (intro gen_only_basic gen_only_sample_loop)

lemma gen_only_choices1: "gen_only (random_choices1 xs ws)"
  unfolding random_choices1_def Let_def by (intro gen_only_basic gen_only_random)

lemma gen_only_fake: "gen_only (fake E p)"
  unfolding fake_def by (intro gen_only_basic)

lemma gen_only_dob: "gen_only (fake_date_of_birth E a b)"
  unfolding fake_date_of_birth_def by (intro gen_only_basic)

lemma gen_only_numerify: "gen_only (fake_numerify p)"
  by (induction p) (simp_all add: gen_only_basic gen_only_choice)

lemma gen_only_lexify: "gen_only (fake_lexify p)"
  by (induction p) (simp_all add: gen_only_basic gen_only_choice)

lemma gen_only_date_between: "gen_only (fake_date_between E a b)"
  unfolding fake_date_between_def by (rule gen_only_randint)

lemmas gen_only_lib = gen_only_basic gen_only_randint gen_only_choice gen_only_random
  gen_only_sample gen_only_choices1 gen_only_fake gen_only_dob gen_only_numerify
  gen_only_lexify gen_only_date_between

lemma gen_only_new_practice: "gen_only (new_practice E)"
  unfolding new_practice_def Let_def by (intro gen_only_lib)

lemma gen_only_new_doctor: "gen_only (new_doctor E)"
  unfolding new_doctor_def by (intro gen_only_lib)

lemma gen_only_new_license: "gen_only (new_license E d)"
  unfolding new_license_def Let_def by (intro gen_only_lib)

lemma gen_only_new_association: "gen_only (new_association E d i p)"
  unfolding new_association_def by (intro gen_only_lib)

lemma returns_new_license:
  "returns (new_license E d)
     (\<lambda>r. lic_doctor_id r = d \<and> license_dates_ok E r \<and> license_number_ok r)"
  unfolding new_license_def Let_def
  apply (rule returns_bind [OF returns_choice])
  apply (rule returns_bind [OF returns_date_between])
  apply (rule returns_bind [OF returns_randint])
  apply (rule returns_bind [OF returns_numerify])
   apply simp
  apply (rule returns_bind [OF returns_lexify])
   apply simp
  apply (rule returns_bind [OF returns_any])
  apply (rule returns_bind [OF returns_any])
  apply (rule returns_return)
  apply (simp add: license_dates_ok_def license_number_ok_def Let_def nth_append)
  done

lemma gen_only_work: "gen_only m \<Longrightarrow> m w = (r, w') \<Longrightarrow> work w' = work w"
proof -
  assume "gen_only m" "m w = (r, w')"
  then have "w' = w\<lparr>tpos := tpos w'\<rparr>" by (auto simp: gen_only_def)
  then have "work w' = work (w\<lparr>tpos := tpos w'\<rparr>)" by simp
  then show ?thesis by simp
qed

lemma inv_postD:
  "inv_post J m Q \<Longrightarrow> J (work w) \<Longrightarrow> m w = (r, w') \<Longrightarrow> J (work w') \<and> (\<forall>x. r = Ok x \<longrightarrow> Q x)"
  by (auto simp: inv_post_def)

lemma inv_post_bind:
  assumes m: "inv_post J m P" and f: "\<And>x. P x \<Longrightarrow> inv_post J (f x) Q"
  shows "inv_post J (py_bind m f) Q"
  unfolding inv_post_def
proof (intro allI impI)
  fix w r w'
  assume a: "J (work w) \<and> py_bind m f w = (r, w')"
  then have run: "py_bind m f w = (r, w')" and J: "J (work w)" by auto
  from run show "J (work w') \<and> (\<forall>x. r = Ok x \<longrightarrow> Q x)"
  proof (cases rule: py_bind_cases)
    case (first e)
    with inv_postD [OF m J] show ?thesis by auto
  next
    case (second x w1)
    from inv_postD [OF m J second(1)] have 1: "J (work w1)" and 2: "P x" by auto
    from inv_postD [OF f [OF 2] 1 second(2)] show ?thesis .
  qed
qed

lemma inv_post_gen: "gen_only m \<Longrightarrow> returns m Q \<Longrightarrow> inv_post J m Q"
  unfolding inv_post_def by (metis gen_only_work returnsD)

lemma inv_post_return: "Q x \<Longrightarrow> inv_post J (py_return x) Q"
  by (simp add: inv_post_def py_return_def)

lemma inv_post_print: "inv_post J (py_print l) (\<lambda>_. True)"
  by (auto simp: inv_post_def py_print_def)

lemma inv_post_sql:
  "(\<And>wk du. J wk \<Longrightarrow> J (fst (apply_stmt s (wk, du)))) \<Longrightarrow> inv_post J (sql s) (\<lambda>_. True)"
  by (auto simp: inv_post_def sql_def split: if_splits)

lemma inv_post_weaken: "inv_post J m P \<Longrightarrow> (\<And>x. P x \<Longrightarrow> Q x) \<Longrightarrow> inv_post J m Q"
  by (auto simp: inv_post_def)

lemma inv_post_flush_licenses:
  "\<forall>r\<in>set batch. P r \<Longrightarrow>
   inv_post (\<lambda>T. \<forall>r\<in>set (t_licenses T). P r)
     (py_bind (sql (InsertLicenses batch)) (\<lambda>_. sql Commit)) (\<lambda>_. True)"
  by (rule inv_post_bind [OF inv_post_sql inv_post_sql]) auto

lemma licenses_inner_inv:
  assumes P: "returns (new_license E d) P"
  shows "\<forall>r\<in>set batch. P r \<Longrightarrow>
    inv_post (\<lambda>T. \<forall>r\<in>set (t_licenses T). P r)
      (licenses_inner E d n batch cnt) (\<lambda>(b, c). \<forall>r\<in>set b. P r)"
proof (induction n arbitrary: batch cnt)
  case 0
  then show ?case by (simp add: inv_post_return)
next
  case (Suc n)
  show ?case
    unfolding licenses_inner.simps Let_def
  proof (rule inv_post_bind [OF inv_post_gen [OF gen_only_new_license P]])
    fix x assume x: "P x"
    show "inv_post (\<lambda>T. \<forall>r\<in>set (t_licenses T). P r)
            (if license_batch_size E \<le> length (batch @ [x])
             then py_bind (sql (InsertLicenses (batch @ [x])))
                    (\<lambda>_. py_bind (sql Commit) (\<lambda>_. licenses_inner E d n [] (cnt + 1)))
             else licenses_inner E d n (batch @ [x]) (cnt + 1))
            (\<lambda>(b, c). \<forall>r\<in>set b. P r)"
    proof (cases "license_batch_size E \<le> length (batch @ [x])")
      case True
      have "inv_post (\<lambda>T. \<forall>r\<in>set (t_licenses T). P r)
              (py_bind (sql (InsertLicenses (batch @ [x])))
                 (\<lambda>_. py_bind (sql Commit) (\<lambda>_. licenses_inner E d n [] (cnt + 1))))
              (\<lambda>(b, c). \<forall>r\<in>set b. P r)"
        apply (rule inv_post_bind [OF inv_post_sql])
        using Suc.prems x apply auto[1]
        apply (rule inv_post_bind [OF inv_post_sql])
         apply simp
        apply (rule Suc.IH)
        apply simp
        done
      with True show ?thesis by (simp only: if_True)
    next
      case False
      have "inv_post (\<lambda>T. \<forall>r\<in>set (t_licenses T). P r)
              (licenses_inner E d n (batch @ [x]) (cnt + 1)) (\<lambda>(b, c). \<forall>r\<in>set b. P r)"
        by (rule Suc.IH) (use Suc.prems x in auto)
      with False show ?thesis by (simp only: if_False)
    qed
  qed
qed

lemma licenses_outer_inv:
  assumes P: "\<And>d. returns (new_license E d) P"
  shows "\<forall>r\<in>set batch. P r \<Longrightarrow>
    inv_post (\<lambda>T. \<forall>r\<in>set (t_licenses T). P r)
      (licenses_outer E ds batch cnt) (\<lambda>(b, c). \<forall>r\<in>set b. P r)"
proof (induction ds arbitrary: batch cnt)
  case Nil
  then show ?case by (simp add: inv_post_return)
next
  case (Cons d ds)
  show ?case
    unfolding licenses_outer.simps
    apply (rule inv_post_bind [OF inv_post_gen [OF gen_only_randint returns_any]])
    apply (rule inv_post_bind [OF licenses_inner_inv [OF P Cons.prems]])
    apply (clarsimp simp del: split_paired_All)
    apply (rule Cons.IH)
    apply simp
    done
qed

lemma generate_licenses_inv:
  assumes P: "\<And>d. returns (new_license E d) P"
  shows "inv_post (\<lambda>T. \<forall>r\<in>set (t_licenses T). P r) (generate_licenses E ds) (\<lambda>_. True)"
  unfolding generate_licenses_def
  apply (rule inv_post_bind [OF inv_post_print])
  apply (rule inv_post_bind [OF licenses_outer_inv [OF P]])
   apply simp
  apply (clarsimp simp del: split_paired_All)
  apply (intro conjI impI)
   apply (rule inv_post_bind [OF inv_post_flush_licenses inv_post_print])
   apply assumption
  apply (rule inv_post_print)
  done

lemma returns_weaken: "returns m P \<Longrightarrow> (\<And>x. P x \<Longrightarrow> Q x) \<Longrightarrow> returns m Q"
  by (auto simp: returns_def)

lemma generate_licenses_rows:
  assumes P: "\<And>d. returns (new_license E d) P"
    and run: "generate_licenses E ds w = (r, w')"
  shows "\<forall>x\<in>set (t_licenses (work w')). x \<in> set (t_licenses (work w)) \<or> P x"
proof -
  let ?P = "\<lambda>x. x \<in> set (t_licenses (work w)) \<or> P x"
  have "inv_post (\<lambda>T. \<forall>r\<in>set (t_licenses T). ?P r) (generate_licenses E ds) (\<lambda>_. True)"
    by (rule generate_licenses_inv) (rule returns_weaken [OF P], simp)
  from inv_postD [OF this _ run] show ?thesis by simp
qed

lemma returns_end_date:
  "returns (if c then py_return None
            else py_bind (fake_date_between E (On s) b) (\<lambda>d. py_return (Some d)))
     (\<lambda>e. case e of None \<Rightarrow> True | Some e' \<Rightarrow> s \<le> e' \<and> e' \<le> parse_date E b)"
  apply (rule returns_if)
   apply (rule returns_return)
   apply simp
  apply (rule returns_bind [OF returns_date_between])
  apply (rule returns_return)
  apply simp
  done

lemma returns_new_association:
  "returns (new_association E d i p)
     (\<lambda>r. dp_doctor_id r = d \<and> dp_practice_id r = p \<and> dp_is_primary r = (i = 0) \<and>
          association_dates_ok E r)"
  unfolding new_association_def
  apply (rule returns_bind [OF returns_date_between])
  apply (rule returns_bind [OF returns_any])
  apply (rule returns_bind [OF returns_end_date])
  apply (rule returns_bind [OF returns_any])
  apply (rule returns_bind [OF returns_any])
  apply (rule returns_return)
  apply (simp add: association_dates_ok_def split: option.splits)
  done

lemma inv_post_flush_associations:
  "\<forall>r\<in>set batch. P r \<Longrightarrow>
   inv_post (\<lambda>T. \<forall>r\<in>set (t_doctor_practices T). P r)
     (py_bind (sql (InsertDoctorPractices batch)) (\<lambda>_. sql Commit)) (\<lambda>_. True)"
  by (rule inv_post_bind [OF inv_post_sql inv_post_sql]) auto

lemma associations_inner_inv:
  assumes P: "\<And>d i p. returns (new_association E d i p) P"
  shows "\<forall>r\<in>set batch. P r \<Longrightarrow>
    inv_post (\<lambda>T. \<forall>r\<in>set (t_doctor_practices T). P r)
      (associations_inner E d i ps batch cnt) (\<lambda>(b, c). \<forall>r\<in>set b. P r)"
proof (induction ps arbitrary: i batch cnt)
  case Nil
  then show ?case by (simp add: inv_post_return)
next
  case (Cons p ps)
  show ?case
    unfolding associations_inner.simps Let_def
  proof (rule inv_post_bind [OF inv_post_gen [OF gen_only_new_association P]])
    fix x assume x: "P x"
    show "inv_post (\<lambda>T. \<forall>r\<in>set (t_doctor_practices T). P r)
            (if association_batch_size E \<le> length (batch @ [x])
             then py_bind (sql (InsertDoctorPractices (batch @ [x])))
                    (\<lambda>_. py_bind (sql Commit)
                       (\<lambda>_. associations_inner E d (i + 1) ps [] (cnt + 1)))
             else associations_inner E d (i + 1) ps (batch @ [x]) (cnt + 1))
            (\<lambda>(b, c). \<forall>r\<in>set b. P r)"
    proof (cases "association_batch_size E \<le> length (batch @ [x])")
      case True
      have "inv_post (\<lambda>T. \<forall>r\<in>set (t_doctor_practices T). P r)
              (py_bind (sql (InsertDoctorPractices (batch @ [x])))
                 (\<lambda>_. py_bind (sql Commit)
                    (\<lambda>_. associations_inner E d (i + 1) ps [] (cnt + 1))))
              (\<lambda>(b, c). \<forall>r\<in>set b. P r)"
        apply (rule inv_post_bind [OF inv_post_sql])
        using Cons.prems x apply auto[1]
        apply (rule inv_post_bind [OF inv_post_sql])
         apply simp
        apply (rule Cons.IH)
        apply simp
        done
      with True show ?thesis by (simp only: if_True)
    next
      case False
      have "inv_post (\<lambda>T. \<forall>r\<in>set (t_doctor_practices T). P r)
              (associations_inner E d (i + 1) ps (batch @ [x]) (cnt + 1))
              (\<lambda>(b, c). \<forall>r\<in>set b. P r)"
        by (rule Cons.IH) (use Cons.prems x in auto)
      with False show ?thesis by (simp only: if_False)
    qed
  qed
qed

lemma associations_outer_inv:
  assumes P: "\<And>d i p. returns (new_association E d i p) P"
  shows "\<forall>r\<in>set batch. P r \<Longrightarrow>
    inv_post (\<lambda>T. \<forall>r\<in>set (t_doctor_practices T). P r)
      (associations_outer E ds ps batch cnt) (\<lambda>(b, c). \<forall>r\<in>set b. P r)"
proof (induction ds arbitrary: batch cnt)
  case Nil
  then show ?case by (simp add: inv_post_return)
next
  case (Cons d ds)
  show ?case
    unfolding associations_outer.simps
    apply (rule inv_post_bind [OF inv_post_gen [OF gen_only_randint returns_any]])
    apply (rule inv_post_bind [OF inv_post_gen [OF gen_only_sample returns_any]])
    apply (rule inv_post_bind [OF associations_inner_inv [OF P Cons.prems]])
    apply (clarsimp simp del: split_paired_All)
    apply (rule Cons.IH)
    apply simp
    done
qed

lemma generate_doctor_practices_inv:
  assumes P: "\<And>d i p. returns (new_association E d i p) P"
  shows "inv_post (\<lambda>T. \<forall>r\<in>set (t_doctor_practices T). P r)
           (generate_doctor_practices E ds ps) (\<lambda>_. True)"
  unfolding generate_doctor_practices_def
  apply (rule inv_post_bind [OF inv_post_print])
  apply (rule inv_post_bind [OF associations_outer_inv [OF P]])
   apply simp
  apply (clarsimp simp del: split_paired_All)
  apply (intro conjI impI)
   apply (rule inv_post_bind [OF inv_post_flush_associations inv_post_print])
   apply assumption
  apply (rule inv_post_print)
  done

lemma generate_doctor_practices_rows:
  assumes P: "\<And>d i p. returns (new_association E d i p) P"
    and run: "generate_doctor_practices E ds ps w = (r, w')"
  shows "\<forall>x\<in>set (t_doctor_practices (work w')). x \<in> set (t_doctor_practices (work w)) \<or> P x"
proof -
  let ?P = "\<lambda>x. x \<in> set (t_doctor_practices (work w)) \<or> P x"
  have "inv_post (\<lambda>T. \<forall>r\<in>set (t_doctor_practices T). ?P r)
          (generate_doctor_practices E ds ps) (\<lambda>_. True)"
    by (rule generate_doctor_practices_inv) (rule returns_weaken [OF P], simp)
  from inv_postD [OF this _ run] show ?thesis by simp
qed

lemma remove_nth_props:
  assumes "i < length xs"
  shows "set (take i xs @ drop (Suc i) xs) \<subseteq> set xs"
    and "length (take i xs @ drop (Suc i) xs) = length xs - 1"
    and "distinct xs \<Longrightarrow> distinct (take i xs @ drop (Suc i) xs)"
    and "distinct xs \<Longrightarrow> xs ! i \<notin> set (take i xs @ drop (Suc i) xs)"
proof -
  have xs: "xs = take i xs @ xs ! i # drop (Suc i) xs"
    using assms by (rule id_take_nth_drop)
  show "set (take i xs @ drop (Suc i) xs) \<subseteq> set xs"
    by (auto dest: in_set_takeD in_set_dropD)
  show "length (take i xs @ drop (Suc i) xs) = length xs - 1"
    using assms by simp
  { assume d: "distinct xs"
    then have "distinct (take i xs @ xs ! i # drop (Suc i) xs)" using xs by simp
    then show "distinct (take i xs @ drop (Suc i) xs)"
      and "xs ! i \<notin> set (take i xs @ drop (Suc i) xs)" by auto }
qed

lemma returns_sample_loop:
  "k \<le> length pool \<Longrightarrow>
   returns (sample_loop pool k)
     (\<lambda>s. length s = k \<and> set s \<subseteq> set pool \<and> (distinct pool \<longrightarrow> distinct s))"
proof (induction k arbitrary: pool)
  case 0
  show ?case by (simp add: returns_return)
next
  case (Suc k)
  have ne: "0 < length pool" using Suc.prems by (cases pool) auto
  show ?case
    unfolding sample_loop.simps Let_def
  proof (rule returns_bind [OF returns_any], rule returns_bind)
    fix j
    let ?i = "j mod length pool"
    have i: "?i < length pool" using ne by simp
    have "k \<le> length (take ?i pool @ drop (Suc ?i) pool)"
      using remove_nth_props(2) [OF i] Suc.prems by simp
    then show "returns (sample_loop (take ?i pool @ drop (Suc ?i) pool) k)
       (\<lambda>s. length s = k \<and> set s \<subseteq> set (take ?i pool @ drop (Suc ?i) pool) \<and>
          (distinct (take ?i pool @ drop (Suc ?i) pool) \<longrightarrow> distinct s))"
      by (rule Suc.IH)
    fix rest
    assume r: "length rest = k \<and> set rest \<subseteq> set (take ?i pool @ drop (Suc ?i) pool) \<and>
          (distinct (take ?i pool @ drop (Suc ?i) pool) \<longrightarrow> distinct rest)"
    show "returns (py_return (pool ! ?i # rest))
       (\<lambda>s. length s = Suc k \<and> set s \<subseteq> set pool \<and> (distinct pool \<longrightarrow> distinct s))"
      apply (rule returns_return)
      using r remove_nth_props [OF i] i by (auto simp del: set_append)
  qed
qed

lemma returns_sample:
  "returns (random_sample xs k)
     (\<lambda>s. int (length s) = k \<and> set s \<subseteq> set xs \<and> (distinct xs \<longrightarrow> distinct s))"
proof (cases "k < 0 \<or> int (length xs) < k")
  case True
  then show ?thesis by (simp add: random_sample_def returns_raise)
next
  case False
  then have "nat k \<le> length xs" by linarith
  from returns_sample_loop [OF this] False show ?thesis
    by (auto simp: random_sample_def returns_def)
qed

subsection \<open>A stage that ends normally\<close>

lemma sql_work: "sql s w = (Ok u, w') \<Longrightarrow> work w' = fst (apply_stmt s (work w, durable w))"
  by (auto simp: sql_def split: if_splits)

lemma insert_licenses_Ok:
  "sql (InsertLicenses b) w = (Ok u, w') \<Longrightarrow> t_licenses (work w') = t_licenses (work w) @ b"
  by (drule sql_work) simp

lemma insert_associations_Ok:
  "sql (InsertDoctorPractices b) w = (Ok u, w') \<Longrightarrow>
   t_doctor_practices (work w') = t_doctor_practices (work w) @ b"
  by (drule sql_work) simp

lemma commit_work: "sql Commit w = (r, w') \<Longrightarrow> work w' = work w"
  by (auto simp: sql_def split: if_splits)

lemma print_work: "py_print l w = (r, w') \<Longrightarrow> work w' = work w"
  by (auto simp: py_print_def)

lemma licenses_inner_Ok:
  "licenses_inner E d n batch cnt w = (Ok (b', c'), w') \<Longrightarrow>
   \<exists>rows. t_licenses (work w') @ b' = t_licenses (work w) @ batch @ rows \<and>
      length rows = n \<and> (\<forall>r\<in>set rows. lic_doctor_id r = d) \<and> c' = cnt + n"
proof (induction n arbitrary: batch cnt w)
  case 0
  then show ?case by (simp add: py_return_def)
next
  case (Suc n)
  from Suc.prems have "py_bind (new_license E d) (\<lambda>x.
       if license_batch_size E \<le> length (batch @ [x]) then
         py_bind (sql (InsertLicenses (batch @ [x]))) (\<lambda>_.
         py_bind (sql Commit) (\<lambda>_. licenses_inner E d n [] (cnt + 1)))
       else licenses_inner E d n (batch @ [x]) (cnt + 1)) w = (Ok (b', c'), w')"
    by (simp only: licenses_inner.simps Let_def)
  then obtain x w1 where gen: "new_license E d w = (Ok x, w1)"
    and rest: "(if license_batch_size E \<le> length (batch @ [x]) then
         py_bind (sql (InsertLicenses (batch @ [x]))) (\<lambda>_.
         py_bind (sql Commit) (\<lambda>_. licenses_inner E d n [] (cnt + 1)))
       else licenses_inner E d n (batch @ [x]) (cnt + 1)) w1 = (Ok (b', c'), w')"
    by (auto elim!: py_bind_cases)
  have x: "lic_doctor_id x = d" using returnsD [OF returns_new_license gen] by simp
  have w1: "work w1 = work w" by (rule gen_only_work [OF gen_only_new_license gen])
  show ?case
  proof (cases "license_batch_size E \<le> length (batch @ [x])")
    case True
    with rest obtain w2 w3 where
      ins: "sql (InsertLicenses (batch @ [x])) w1 = (Ok (), w2)" and
      com: "sql Commit w2 = (Ok (), w3)" and
      run: "licenses_inner E d n [] (cnt + 1) w3 = (Ok (b', c'), w')"
      by (auto elim!: py_bind_cases)
    from Suc.IH [OF run] obtain rows where
      rows: "t_licenses (work w') @ b' = t_licenses (work w3) @ [] @ rows"
        "length rows = n" "\<forall>r\<in>set rows. lic_doctor_id r = d" "c' = cnt + 1 + n"
      by blast
    have "t_licenses (work w3) = t_licenses (work w) @ batch @ [x]"
      using insert_licenses_Ok [OF ins] commit_work [OF com] w1 by simp
    with rows x show ?thesis
      by (intro exI [of _ "x # rows"]) simp
  next
    case False
    with rest have run: "licenses_inner E d n (batch @ [x]) (cnt + 1) w1 = (Ok (b', c'), w')"
      by simp
    from Suc.IH [OF run] obtain rows where
      rows: "t_licenses (work w') @ b' = t_licenses (work w1) @ (batch @ [x]) @ rows"
        "length rows = n" "\<forall>r\<in>set rows. lic_doctor_id r = d" "c' = cnt + 1 + n"
      by blast
    with w1 x show ?thesis
      by (intro exI [of _ "x # rows"]) simp
  qed
qed

lemma licenses_outer_Ok:
  "licenses_outer E ds batch cnt w = (Ok (b', c'), w') \<Longrightarrow>
   \<exists>groups. t_licenses (work w') @ b' = t_licenses (work w) @ batch @ concat groups \<and>
      list_all2 (license_group_ok E) ds groups \<and> c' = cnt + length (concat groups)"
proof (induction ds arbitrary: batch cnt w)
  case Nil
  then show ?case by (simp add: py_return_def)
next
  case (Cons d ds)
  from Cons.prems obtain k w1 b1 c1 w2 where
    n: "random_randint 1 (MAX_LICENSES_PER_DOCTOR E) w = (Ok k, w1)" and
    inner: "licenses_inner E d (nat k) batch cnt w1 = (Ok (b1, c1), w2)" and
    run: "licenses_outer E ds b1 c1 w2 = (Ok (b', c'), w')"
    by (auto elim!: py_bind_cases)
  have k: "1 \<le> k" "k \<le> MAX_LICENSES_PER_DOCTOR E"
    using returnsD [OF returns_randint n] by auto
  have w1: "work w1 = work w" by (rule gen_only_work [OF gen_only_randint n])
  from licenses_inner_Ok [OF inner] obtain rows where
    rows: "t_licenses (work w2) @ b1 = t_licenses (work w1) @ batch @ rows"
      "length rows = nat k" "\<forall>r\<in>set rows. lic_doctor_id r = d" "c1 = cnt + nat k"
    by blast
  from Cons.IH [OF run] obtain groups where
    groups: "t_licenses (work w') @ b' = t_licenses (work w2) @ b1 @ concat groups"
      "list_all2 (license_group_ok E) ds groups" "c' = c1 + length (concat groups)"
    by blast
  have g: "license_group_ok E d rows"
    using rows k by (simp add: license_group_ok_def)
  show ?case
    apply (rule exI [of _ "rows # groups"])
    using groups rows g w1 by simp
qed

lemma generate_licenses_Ok:
  assumes "generate_licenses E ds w = (Ok u, w')"
  shows "\<exists>groups. t_licenses (work w') = t_licenses (work w) @ concat groups \<and>
      list_all2 (license_group_ok E) ds groups"
proof -
  from assms obtain w1 b c w2 w3 where
    p: "py_print Out_generating_licenses w = (Ok (), w1)" and
    outer: "licenses_outer E ds [] 0 w1 = (Ok (b, c), w2)" and
    flush: "(if b \<noteq> [] then py_bind (sql (InsertLicenses b)) (\<lambda>_. sql Commit)
             else py_return ()) w2 = (Ok (), w3)" and
    fin: "py_print (Out_generated_licenses c) w3 = (Ok u, w')"
    unfolding generate_licenses_def by (auto elim!: py_bind_cases)
  from licenses_outer_Ok [OF outer] obtain groups where
    groups: "t_licenses (work w2) @ b = t_licenses (work w1) @ [] @ concat groups"
      "list_all2 (license_group_ok E) ds groups"
    by blast
  have "t_licenses (work w3) = t_licenses (work w2) @ b"
  proof (cases "b = []")
    case True
    with flush show ?thesis by (simp add: py_return_def)
  next
    case False
    with flush obtain w4 where "sql (InsertLicenses b) w2 = (Ok (), w4)" "sql Commit w4 = (Ok (), w3)"
      by (auto elim!: py_bind_cases)
    then show ?thesis using insert_licenses_Ok commit_work by metis
  qed
  with groups print_work [OF p] print_work [OF fin] show ?thesis by auto
qed

lemma associations_inner_Ok:
  "associations_inner E d i ps batch cnt w = (Ok (b', c'), w') \<Longrightarrow>
   \<exists>rows. t_doctor_practices (work w') @ b' = t_doctor_practices (work w) @ batch @ rows \<and>
      map dp_practice_id rows = ps \<and> (\<forall>r\<in>set rows. dp_doctor_id r = d) \<and>
      map dp_is_primary rows = map (\<lambda>j. j = 0) [i ..< i + length ps] \<and>
      c' = cnt + length ps"
proof (induction ps arbitrary: i batch cnt w)
  case Nil
  then show ?case by (simp add: py_return_def)
next
  case (Cons p ps)
  from Cons.prems have "py_bind (new_association E d i p) (\<lambda>x.
       if association_batch_size E \<le> length (batch @ [x]) then
         py_bind (sql (InsertDoctorPractices (batch @ [x]))) (\<lambda>_.
         py_bind (sql Commit) (\<lambda>_. associations_inner E d (i + 1) ps [] (cnt + 1)))
       else associations_inner E d (i + 1) ps (batch @ [x]) (cnt + 1)) w = (Ok (b', c'), w')"
    by (simp only: associations_inner.simps Let_def)
  then obtain x w1 where gen: "new_association E d i p w = (Ok x, w1)"
    and rest: "(if association_batch_size E \<le> length (batch @ [x]) then
         py_bind (sql (InsertDoctorPractices (batch @ [x]))) (\<lambda>_.
         py_bind (sql Commit) (\<lambda>_. associations_inner E d (i + 1) ps [] (cnt + 1)))
       else associations_inner E d (i + 1) ps (batch @ [x]) (cnt + 1)) w1 = (Ok (b', c'), w')"
    by (auto elim!: py_bind_cases)
  have x: "dp_doctor_id x = d" "dp_practice_id x = p" "dp_is_primary x = (i = 0)"
    using returnsD [OF returns_new_association gen] by simp_all
  have w1: "work w1 = work w" by (rule gen_only_work [OF gen_only_new_association gen])
  have upt: "[i ..< i + length (p # ps)] = i # [i + 1 ..< i + 1 + length ps]"
    by (subst upt_conv_Cons) simp_all
  show ?case
  proof (cases "association_batch_size E \<le> length (batch @ [x])")
    case True
    with rest obtain w2 w3 where
      ins: "sql (InsertDoctorPractices (batch @ [x])) w1 = (Ok (), w2)" and
      com: "sql Commit w2 = (Ok (), w3)" and
      run: "associations_inner E d (i + 1) ps [] (cnt + 1) w3 = (Ok (b', c'), w')"
      by (auto elim!: py_bind_cases)
    from Cons.IH [OF run] obtain rows where
      rows: "t_doctor_practices (work w') @ b' = t_doctor_practices (work w3) @ [] @ rows"
        "map dp_practice_id rows = ps" "\<forall>r\<in>set rows. dp_doctor_id r = d"
        "map dp_is_primary rows = map (\<lambda>j. j = 0) [i + 1 ..< i + 1 + length ps]"
        "c' = cnt + 1 + length ps"
      by blast
    have "t_doctor_practices (work w3) = t_doctor_practices (work w) @ batch @ [x]"
      using insert_associations_Ok [OF ins] commit_work [OF com] w1 by simp
    with rows x upt show ?thesis
      by (intro exI [of _ "x # rows"]) simp
  next
    case False
    with rest have run:
      "associations_inner E d (i + 1) ps (batch @ [x]) (cnt + 1) w1 = (Ok (b', c'), w')"
      by simp
    from Cons.IH [OF run] obtain rows where
      rows: "t_doctor_practices (work w') @ b' = t_doctor_practices (work w1) @ (batch @ [x]) @ rows"
        "map dp_practice_id rows = ps" "\<forall>r\<in>set rows. dp_doctor_id r = d"
        "map dp_is_primary rows = map (\<lambda>j. j = 0) [i + 1 ..< i + 1 + length ps]"
        "c' = cnt + 1 + length ps"
      by blast
    with w1 x upt show ?thesis
      by (intro exI [of _ "x # rows"]) simp
  qed
qed

lemma associations_outer_Ok:
  "associations_outer E ds ps batch cnt w = (Ok (b', c'), w') \<Longrightarrow>
   \<exists>groups. t_doctor_practices (work w') @ b' =
        t_doctor_practices (work w) @ batch @ concat groups \<and>
      list_all2 (association_group_ok E ps) ds groups \<and> c' = cnt + length (concat groups)"
proof (induction ds arbitrary: batch cnt w)
  case Nil
  then show ?case by (simp add: py_return_def)
next
  case (Cons d ds)
  from Cons.prems obtain k w1 s w2 b1 c1 w3 where
    n: "random_randint 1 (MAX_PRACTICES_PER_DOCTOR E) w = (Ok k, w1)" and
    smp: "random_sample ps (min k (int (length ps))) w1 = (Ok s, w2)" and
    inner: "associations_inner E d 0 s batch cnt w2 = (Ok (b1, c1), w3)" and
    run: "associations_outer E ds ps b1 c1 w3 = (Ok (b', c'), w')"
    by (auto elim!: py_bind_cases)
  have k: "1 \<le> k" "k \<le> MAX_PRACTICES_PER_DOCTOR E"
    using returnsD [OF returns_randint n] by auto
  have s: "int (length s) = min k (int (length ps))" "set s \<subseteq> set ps"
    "distinct ps \<longrightarrow> distinct s"
    using returnsD [OF returns_sample smp] by auto
  have w2: "work w2 = work w"
    using gen_only_work [OF gen_only_randint n] gen_only_work [OF gen_only_sample smp] by simp
  from associations_inner_Ok [OF inner] obtain rows where
    rows: "t_doctor_practices (work w3) @ b1 = t_doctor_practices (work w2) @ batch @ rows"
      "map dp_practice_id rows = s" "\<forall>r\<in>set rows. dp_doctor_id r = d"
      "map dp_is_primary rows = map (\<lambda>j. j = 0) [0 ..< 0 + length s]"
      "c1 = cnt + length s"
    by blast
  from Cons.IH [OF run] obtain groups where
    groups: "t_doctor_practices (work w') @ b' = t_doctor_practices (work w3) @ b1 @ concat groups"
      "list_all2 (association_group_ok E ps) ds groups" "c' = c1 + length (concat groups)"
    by blast
  have len: "length rows = length s" using rows(2) by (metis length_map)
  have "ps \<noteq> [] \<longrightarrow> rows \<noteq> []"
    using len s(1) k(1) by (cases ps) auto
  then have g: "association_group_ok E ps d rows"
    using rows s k len by (simp add: association_group_ok_def)
  show ?case
    apply (rule exI [of _ "rows # groups"])
    using groups rows g w2 len by simp
qed

lemma generate_doctor_practices_Ok:
  assumes "generate_doctor_practices E ds ps w = (Ok u, w')"
  shows "\<exists>groups. t_doctor_practices (work w') = t_doctor_practices (work w) @ concat groups \<and>
      list_all2 (association_group_ok E ps) ds groups"
proof -
  from assms obtain w1 b c w2 w3 where
    p: "py_print Out_generating_associations w = (Ok (), w1)" and
    outer: "associations_outer E ds ps [] 0 w1 = (Ok (b, c), w2)" and
    flush: "(if b \<noteq> [] then py_bind (sql (InsertDoctorPractices b)) (\<lambda>_. sql Commit)
             else py_return ()) w2 = (Ok (), w3)" and
    fin: "py_print (Out_generated_associations c) w3 = (Ok u, w')"
    unfolding generate_doctor_practices_def by (auto elim!: py_bind_cases)
  from associations_outer_Ok [OF outer] obtain groups where
    groups: "t_doctor_practices (work w2) @ b = t_doctor_practices (work w1) @ [] @ concat groups"
      "list_all2 (association_group_ok E ps) ds groups"
    by blast
  have "t_doctor_practices (work w3) = t_doctor_practices (work w2) @ b"
  proof (cases "b = []")
    case True
    with flush show ?thesis by (simp add: py_return_def)
  next
    case False
    with flush obtain w4 where
      "sql (InsertDoctorPractices b) w2 = (Ok (), w4)" "sql Commit w4 = (Ok (), w3)"
      by (auto elim!: py_bind_cases)
    then show ?thesis using insert_associations_Ok commit_work by metis
  qed
  with groups print_work [OF p] print_work [OF fin] show ?thesis by auto
qed

lemma filter_groups_absent:
  assumes "list_all2 G ds groups" and "\<And>d g. G d g \<Longrightarrow> \<forall>r\<in>set g. key r = d"
    and "d \<notin> set ds"
  shows "filter (\<lambda>r. key r = d) (concat groups) = []"
  using assms(1,3)
proof (induction rule: list_all2_induct)
  case Nil
  show ?case by simp
next
  case (Cons d0 ds g0 gs)
  from assms(2) [OF Cons.hyps(1)] Cons.prems have "filter (\<lambda>r. key r = d) g0 = []"
    by (auto simp: filter_empty_conv)
  with Cons show ?case by simp
qed

lemma filter_groups_present:
  assumes "list_all2 G ds groups" and "\<And>d g. G d g \<Longrightarrow> \<forall>r\<in>set g. key r = d"
    and "distinct ds" and "d \<in> set ds"
  shows "G d (filter (\<lambda>r. key r = d) (concat groups))"
  using assms(1,3,4)
proof (induction rule: list_all2_induct)
  case Nil
  then show ?case by simp
next
  case (Cons d0 ds g0 gs)
  show ?case
  proof (cases "d = d0")
    case True
    with Cons.prems have "d \<notin> set ds" by simp
    from filter_groups_absent [OF Cons.hyps(2) assms(2) this]
    have 1: "filter (\<lambda>r. key r = d) (concat gs) = []" by simp
    from assms(2) [OF Cons.hyps(1)] True have 2: "filter (\<lambda>r. key r = d) g0 = g0"
      by (auto simp: filter_id_conv)
    from 1 2 Cons.hyps(1) True show ?thesis by simp
  next
    case False
    from assms(2) [OF Cons.hyps(1)] False have "filter (\<lambda>r. key r = d) g0 = []"
      by (auto simp: filter_empty_conv)
    with Cons False show ?thesis by simp
  qed
qed

lemma primary_first:
  assumes "map dp_is_primary g = map (\<lambda>j. j = 0) [0 ..< length g]"
  shows "length (filter dp_is_primary g) = (if g = [] then 0 else 1) \<and>
         (g \<noteq> [] \<longrightarrow> dp_is_primary (hd g))"
proof (cases g)
  case Nil
  then show ?thesis by simp
next
  case (Cons x xs)
  have nth: "dp_is_primary (g ! k) = (k = 0)" if "k < length g" for k
  proof -
    have "map dp_is_primary g ! k = map (\<lambda>j. j = 0) [0 ..< length g] ! k"
      using assms by simp
    with that show ?thesis by simp
  qed
  from nth [of 0] Cons have x: "dp_is_primary x" by simp
  have "\<not> dp_is_primary r" if "r \<in> set xs" for r
  proof -
    from that obtain k where "k < length xs" "xs ! k = r" by (auto simp: in_set_conv_nth)
    with nth [of "Suc k"] Cons show ?thesis by auto
  qed
  then have "filter dp_is_primary xs = []" by (auto simp: filter_empty_conv)
  with x Cons show ?thesis by simp
qed

lemma associations_outer_empty:
  assumes "1 \<le> MAX_PRACTICES_PER_DOCTOR E"
  shows "associations_outer E ds [] [] 0 w = (Ok ([], 0), w\<lparr>tpos := tpos w + length ds\<rparr>)"
proof (induction ds arbitrary: w)
  case Nil
  show ?case by (simp add: py_return_def)
next
  case (Cons d ds)
  have "min (1 + int k) 0 = 0" for k by simp
  then show ?case
    using assms
    by (simp add: random_randint_def random_sample_def py_bind_def draw_def py_return_def Cons)
qed

subsection \<open>Batches of practices and doctors\<close>

lemma reads_tape_bind:
  assumes m: "reads_tape m" and f: "\<And>x. reads_tape (f x)"
  shows "reads_tape (py_bind m f)"
  unfolding reads_tape_def
proof
  fix w :: world
  from m [unfolded reads_tape_def]
  have "\<exists>r k. \<forall>v. tape v = tape w \<and> tpos v = tpos w \<longrightarrow> m v = (r, v\<lparr>tpos := k\<rparr>)"
    by (rule spec)
  then obtain r k where
    "\<forall>v. tape v = tape w \<and> tpos v = tpos w \<longrightarrow> m v = (r, v\<lparr>tpos := k\<rparr>)"
    by (elim exE)
  then have mk: "\<And>v. tape v = tape w \<Longrightarrow> tpos v = tpos w \<Longrightarrow> m v = (r, v\<lparr>tpos := k\<rparr>)"
    by simp
  show "\<exists>r k. \<forall>v. tape v = tape w \<and> tpos v = tpos w \<longrightarrow> py_bind m f v = (r, v\<lparr>tpos := k\<rparr>)"
  proof (cases r)
    case (Raise e)
    with mk show ?thesis by (intro exI [of _ "Raise e"] exI [of _ k]) (simp add: py_bind_def)
  next
    case (Ok x)
    from f [of x, unfolded reads_tape_def]
    have "\<exists>r' k'. \<forall>v. tape v = tape (w\<lparr>tpos := k\<rparr>) \<and> tpos v = tpos (w\<lparr>tpos := k\<rparr>) \<longrightarrow>
             f x v = (r', v\<lparr>tpos := k'\<rparr>)"
      by (rule spec)
    then obtain r' k' where
      "\<forall>v. tape v = tape (w\<lparr>tpos := k\<rparr>) \<and> tpos v = tpos (w\<lparr>tpos := k\<rparr>) \<longrightarrow>
             f x v = (r', v\<lparr>tpos := k'\<rparr>)"
      by (elim exE)
    then have fk: "\<And>v. tape v = tape w \<Longrightarrow> tpos v = k \<Longrightarrow> f x v = (r', v\<lparr>tpos := k'\<rparr>)"
      by simp
    have "py_bind m f v = (r', v\<lparr>tpos := k'\<rparr>)" if "tape v = tape w" "tpos v = tpos w" for v
    proof -
      have "f x (v\<lparr>tpos := k\<rparr>) = (r', v\<lparr>tpos := k, tpos := k'\<rparr>)"
        by (rule fk) (simp_all add: that)
      with mk [OF that] Ok show ?thesis by (simp add: py_bind_def)
    qed
    then show ?thesis by (intro exI [of _ r'] exI [of _ k']) simp
  qed
qed

lemma tpos_same: "tpos (v::world) = k \<Longrightarrow> v\<lparr>tpos := k\<rparr> = v"
  by auto

lemma reads_tape_return: "reads_tape (py_return x)"
  unfolding reads_tape_def py_return_def
  by (intro allI, rule_tac x = "Ok x" in exI, rule_tac x = "tpos w" in exI) (simp add: tpos_same)

lemma reads_tape_raise: "reads_tape (py_raise e)"
  unfolding reads_tape_def py_raise_def
  by (intro allI, rule_tac x = "Raise e" in exI, rule_tac x = "tpos w" in exI) (simp add: tpos_same)

lemma reads_tape_draw: "reads_tape draw"
  unfolding reads_tape_def draw_def
  by (intro allI, rule_tac x = "Ok (tape w (tpos w))" in exI, rule_tac x = "tpos w + 1" in exI) simp

lemma reads_tape_if: "reads_tape a \<Longrightarrow> reads_tape b \<Longrightarrow> reads_tape (if c then a else b)"
  by simp

lemmas reads_tape_basic = reads_tape_bind reads_tape_return reads_tape_raise reads_tape_if
  reads_tape_draw

lemma reads_tape_randint: "reads_tape (random_randint a b)"
  unfolding random_randint_def by (intro reads_tape_basic)

lemma reads_tape_choice: "reads_tape (random_choice xs)"
  unfolding random_choice_def by (intro reads_tape_basic)

lemma reads_tape_random: "reads_tape random_random"
  unfolding random_random_def by (intro reads_tape_basic)

lemma reads_tape_fake: "reads_tape (fake E p)"
  unfolding fake_def by (intro reads_tape_basic)

lemma reads_tape_dob: "reads_tape (fake_date_of_birth E a b)"
  unfolding fake_date_of_birth_def by (intro reads_tape_basic)

lemmas reads_tape_lib = reads_tape_basic reads_tape_randint reads_tape_choice reads_tape_random
  reads_tape_fake reads_tape_dob

lemma reads_tape_new_practice: "reads_tape (new_practice E)"
  unfolding new_practice_def Let_def by (intro reads_tape_lib)

lemma reads_tape_new_doctor: "reads_tape (new_doctor E)"
  unfolding new_doctor_def by (intro reads_tape_lib)

lemma reads_tapeD:
  assumes "reads_tape m" and "m w = (r, w')" and "tape v = tape w" and "tpos v = tpos w"
  shows "m v = (r, v\<lparr>tpos := tpos w'\<rparr>)" and "tape w' = tape w"
proof -
  from assms(1) [unfolded reads_tape_def]
  have "\<exists>r0 k. \<forall>u. tape u = tape w \<and> tpos u = tpos w \<longrightarrow> m u = (r0, u\<lparr>tpos := k\<rparr>)"
    by (rule spec)
  then obtain r0 k where
    "\<forall>u. tape u = tape w \<and> tpos u = tpos w \<longrightarrow> m u = (r0, u\<lparr>tpos := k\<rparr>)"
    by (elim exE)
  then have k: "\<And>u. tape u = tape w \<Longrightarrow> tpos u = tpos w \<Longrightarrow> m u = (r0, u\<lparr>tpos := k\<rparr>)"
    by simp
  from k [of w] assms(2) have e: "r = r0" "w' = w\<lparr>tpos := k\<rparr>" by simp_all
  from e(2) have "tpos w' = tpos (w\<lparr>tpos := k\<rparr>)" "tape w' = tape (w\<lparr>tpos := k\<rparr>)"
    by simp_all
  then have "tpos w' = k" "tape w' = tape w" by simp_all
  with k [OF assms(3,4)] e(1) show "m v = (r, v\<lparr>tpos := tpos w'\<rparr>)" and "tape w' = tape w"
    by simp_all
qed

lemma generated_cong:
  assumes "reads_tape m"
  shows "tape v = tape w \<Longrightarrow> tpos v = tpos w \<Longrightarrow> generated m n v = generated m n w"
proof (induction n arbitrary: v w)
  case 0
  show ?case by simp
next
  case (Suc n)
  obtain r w' where mw: "m w = (r, w')" by (cases "m w")
  from reads_tapeD [OF assms mw Suc.prems] have mv: "m v = (r, v\<lparr>tpos := tpos w'\<rparr>)"
    and t: "tape w' = tape w" by simp_all
  show ?case
  proof (cases r)
    case (Raise e)
    with mw mv show ?thesis by simp
  next
    case (Ok x)
    have "generated m n (v\<lparr>tpos := tpos w'\<rparr>) = generated m n w'"
      by (rule Suc.IH) (simp_all add: t Suc.prems)
    with mw mv Ok show ?thesis by simp
  qed
qed

lemma zip_upt_append:
  "length xs = k \<Longrightarrow>
   zip [s ..< s + k + n] (xs @ ys) = zip [s ..< s + k] xs @ zip [s + k ..< s + k + n] ys"
proof -
  assume "length xs = k"
  have "[s ..< s + k + n] = [s ..< s + k] @ [s + k ..< s + k + n]"
    using upt_add_eq_append [of s "s + k" n] by simp
  then show ?thesis using \<open>length xs = k\<close> by simp
qed

lemma insert_practices_Ok:
  assumes "insert_practices_returning rows w = (Ok ids, w')"
  shows "ids = [seq_practice (work w) ..< seq_practice (work w) + length rows]"
    and "t_practices (work w') = t_practices (work w) @ zip ids rows"
    and "seq_practice (work w') = seq_practice (work w) + length rows"
    and "tape w' = tape w" and "tpos w' = tpos w"
  using assms
  by (auto simp: insert_practices_returning_def sql_def split: if_splits)

lemma practices_loop_Ok:
  "n = NUM_PRACTICES E - a \<Longrightarrow> (NUM_PRACTICES E \<le> a \<longrightarrow> batch = []) \<Longrightarrow>
   practices_loop E [a ..< NUM_PRACTICES E] ids batch w = (Ok ids', w') \<Longrightarrow>
   length (generated (new_practice E) n w) = n \<and>
   t_practices (work w') =
     t_practices (work w) @
       zip [seq_practice (work w) ..< seq_practice (work w) + length batch + n]
         (batch @ generated (new_practice E) n w) \<and>
   ids' = ids @ [seq_practice (work w) ..< seq_practice (work w) + length batch + n]"
proof (induction n arbitrary: a ids batch w)
  case 0
  then show ?case by (simp add: py_return_def)
next
  case (Suc n)
  let ?N = "NUM_PRACTICES E"
  let ?s = "seq_practice (work w)"
  from Suc.prems(1) have a: "a < ?N" and n: "n = ?N - Suc a" by simp_all
  then have upt: "[a ..< ?N] = a # [Suc a ..< ?N]" by (simp add: upt_conv_Cons)
  from Suc.prems(3) have "py_bind (new_practice E) (\<lambda>x.
       if practice_batch_size E \<le> length (batch @ [x]) \<or> int a = int ?N - 1 then
         py_bind (insert_practices_returning (batch @ [x])) (\<lambda>new_ids.
         py_bind (sql Commit) (\<lambda>_. practices_loop E [Suc a ..< ?N] (ids @ new_ids) []))
       else practices_loop E [Suc a ..< ?N] ids (batch @ [x])) w = (Ok ids', w')"
    by (simp only: upt practices_loop.simps Let_def)
  then obtain x w1 where gen: "new_practice E w = (Ok x, w1)"
    and rest: "(if practice_batch_size E \<le> length (batch @ [x]) \<or> int a = int ?N - 1 then
         py_bind (insert_practices_returning (batch @ [x])) (\<lambda>new_ids.
         py_bind (sql Commit) (\<lambda>_. practices_loop E [Suc a ..< ?N] (ids @ new_ids) []))
       else practices_loop E [Suc a ..< ?N] ids (batch @ [x])) w1 = (Ok ids', w')"
    by (auto elim!: py_bind_cases)
  have w1: "work w1 = work w" by (rule gen_only_work [OF gen_only_new_practice gen])
  have G: "generated (new_practice E) (Suc n) w = x # generated (new_practice E) n w1"
    using gen by simp
  show ?case
  proof (cases "practice_batch_size E \<le> length (batch @ [x]) \<or> int a = int ?N - 1")
    case True
    with rest obtain new_ids w2 w3 where
      ins: "insert_practices_returning (batch @ [x]) w1 = (Ok new_ids, w2)" and
      com: "sql Commit w2 = (Ok (), w3)" and
      run: "practices_loop E [Suc a ..< ?N] (ids @ new_ids) [] w3 = (Ok ids', w')"
      by (auto elim!: py_bind_cases)
    note i = insert_practices_Ok [OF ins]
    have w3: "work w3 = work w2" "tape w3 = tape w1" "tpos w3 = tpos w1"
      using com i(4,5) by (auto simp: sql_def split: if_splits)
    have s3: "seq_practice (work w3) = ?s + length batch + 1"
      using i(3) w3(1) w1 by simp
    have t3: "t_practices (work w3) =
        t_practices (work w) @ zip [?s ..< ?s + length batch + 1] (batch @ [x])"
      using i(1,2) w3(1) w1 by simp
    have g3: "generated (new_practice E) n w3 = generated (new_practice E) n w1"
      by (rule generated_cong [OF reads_tape_new_practice w3(2,3)])
    from Suc.IH [OF n _ run] have
      IH: "length (generated (new_practice E) n w3) = n"
        "t_practices (work w') = t_practices (work w3) @
           zip [seq_practice (work w3) ..< seq_practice (work w3) + n]
             (generated (new_practice E) n w3)"
        "ids' = (ids @ new_ids) @ [seq_practice (work w3) ..< seq_practice (work w3) + n]"
      by simp_all
    have z: "zip [?s ..< ?s + length batch + Suc n] (batch @ x # generated (new_practice E) n w1) =
        zip [?s ..< ?s + length batch + 1] (batch @ [x]) @
        zip [?s + length batch + 1 ..< ?s + length batch + 1 + n] (generated (new_practice E) n w1)"
      using zip_upt_append [of "batch @ [x]" "length batch + 1" ?s n
          "generated (new_practice E) n w1"]
      by (simp add: add.assoc)
    have u: "[?s ..< ?s + length batch + Suc n] =
        [?s ..< ?s + length batch + 1] @ [?s + length batch + 1 ..< ?s + length batch + 1 + n]"
      using upt_add_eq_append [of ?s "?s + length batch + 1" n] by simp
    show ?thesis
      using IH G g3 s3 t3 z u i(1) w1 by simp
  next
    case False
    then have "\<not> ?N \<le> Suc a" using a by auto
    then have p: "?N \<le> Suc a \<longrightarrow> batch @ [x] = []" by simp
    from False rest have run: "practices_loop E [Suc a ..< ?N] ids (batch @ [x]) w1 = (Ok ids', w')"
      by simp
    from Suc.IH [OF n p run] show ?thesis
      using G w1 by (simp add: add.assoc)
  qed
qed

lemma generate_practices_Ok:
  assumes "generate_practices E w = (Ok practice_ids, w')"
  shows "length (generated (new_practice E) (NUM_PRACTICES E) w) = NUM_PRACTICES E"
    and "t_practices (work w') =
      t_practices (work w) @ zip practice_ids (generated (new_practice E) (NUM_PRACTICES E) w)"
    and "practice_ids = [seq_practice (work w) ..< seq_practice (work w) + NUM_PRACTICES E]"
proof -
  from assms obtain w1 ids w2 w3 where
    p: "py_print Out_generating_practices w = (Ok (), w1)" and
    loop: "practices_loop E [0 ..< NUM_PRACTICES E] [] [] w1 = (Ok ids, w2)" and
    fin: "py_print (Out_generated_practices (length ids)) w2 = (Ok (), w3)" and
    ret: "py_return ids w3 = (Ok practice_ids, w')"
    unfolding generate_practices_def by (auto elim!: py_bind_cases)
  have w1: "work w1 = work w" "tape w1 = tape w" "tpos w1 = tpos w"
    using p by (auto simp: py_print_def)
  have w': "work w' = work w2" "practice_ids = ids"
    using fin ret by (auto simp: py_print_def py_return_def)
  have g: "generated (new_practice E) (NUM_PRACTICES E) w1 =
      generated (new_practice E) (NUM_PRACTICES E) w"
    by (rule generated_cong [OF reads_tape_new_practice w1(2,3)])
  from practices_loop_Ok [OF _ _ loop, of "NUM_PRACTICES E"]
  show "length (generated (new_practice E) (NUM_PRACTICES E) w) = NUM_PRACTICES E"
    and "t_practices (work w') =
      t_practices (work w) @ zip practice_ids (generated (new_practice E) (NUM_PRACTICES E) w)"
    and "practice_ids = [seq_practice (work w) ..< seq_practice (work w) + NUM_PRACTICES E]"
    using w1 w' g by simp_all
qed

lemma insert_doctors_Ok:
  assumes "insert_doctors_returning rows w = (Ok ids, w')"
  shows "ids = [seq_doctor (work w) ..< seq_doctor (work w) + length rows]"
    and "t_doctors (work w') = t_doctors (work w) @ zip ids rows"
    and "seq_doctor (work w') = seq_doctor (work w) + length rows"
    and "tape w' = tape w" and "tpos w' = tpos w"
  using assms
  by (auto simp: insert_doctors_returning_def sql_def split: if_splits)

lemma doctors_loop_Ok:
  "n = NUM_DOCTORS E - a \<Longrightarrow> (NUM_DOCTORS E \<le> a \<longrightarrow> batch = []) \<Longrightarrow>
   doctors_loop E [a ..< NUM_DOCTORS E] ids batch w = (Ok ids', w') \<Longrightarrow>
   length (generated (new_doctor E) n w) = n \<and>
   t_doctors (work w') =
     t_doctors (work w) @
       zip [seq_doctor (work w) ..< seq_doctor (work w) + length batch + n]
         (batch @ generated (new_doctor E) n w) \<and>
   ids' = ids @ [seq_doctor (work w) ..< seq_doctor (work w) + length batch + n]"
proof (induction n arbitrary: a ids batch w)
  case 0
  then show ?case by (simp add: py_return_def)
next
  case (Suc n)
  let ?N = "NUM_DOCTORS E"
  let ?s = "seq_doctor (work w)"
  from Suc.prems(1) have a: "a < ?N" and n: "n = ?N - Suc a" by simp_all
  then have upt: "[a ..< ?N] = a # [Suc a ..< ?N]" by (simp add: upt_conv_Cons)
  from Suc.prems(3) have "py_bind (new_doctor E) (\<lambda>x.
       if doctor_batch_size E \<le> length (batch @ [x]) \<or> int a = int ?N - 1 then
         py_bind (insert_doctors_returning (batch @ [x])) (\<lambda>new_ids.
         py_bind (sql Commit) (\<lambda>_. doctors_loop E [Suc a ..< ?N] (ids @ new_ids) []))
       else doctors_loop E [Suc a ..< ?N] ids (batch @ [x])) w = (Ok ids', w')"
    by (simp only: upt doctors_loop.simps Let_def)
  then obtain x w1 where gen: "new_doctor E w = (Ok x, w1)"
    and rest: "(if doctor_batch_size E \<le> length (batch @ [x]) \<or> int a = int ?N - 1 then
         py_bind (insert_doctors_returning (batch @ [x])) (\<lambda>new_ids.
         py_bind (sql Commit) (\<lambda>_. doctors_loop E [Suc a ..< ?N] (ids @ new_ids) []))
       else doctors_loop E [Suc a ..< ?N] ids (batch @ [x])) w1 = (Ok ids', w')"
    by (auto elim!: py_bind_cases)
  have w1: "work w1 = work w" by (rule gen_only_work [OF gen_only_new_doctor gen])
  have G: "generated (new_doctor E) (Suc n) w = x # generated (new_doctor E) n w1"
    using gen by simp
  show ?case
  proof (cases "doctor_batch_size E \<le> length (batch @ [x]) \<or> int a = int ?N - 1")
    case True
    with rest obtain new_ids w2 w3 where
      ins: "insert_doctors_returning (batch @ [x]) w1 = (Ok new_ids, w2)" and
      com: "sql Commit w2 = (Ok (), w3)" and
      run: "doctors_loop E [Suc a ..< ?N] (ids @ new_ids) [] w3 = (Ok ids', w')"
      by (auto elim!: py_bind_cases)
    note i = insert_doctors_Ok [OF ins]
    have w3: "work w3 = work w2" "tape w3 = tape w1" "tpos w3 = tpos w1"
      using com i(4,5) by (auto simp: sql_def split: if_splits)
    have s3: "seq_doctor (work w3) = ?s + length batch + 1"
      using i(3) w3(1) w1 by simp
    have t3: "t_doctors (work w3) =
        t_doctors (work w) @ zip [?s ..< ?s + length batch + 1] (batch @ [x])"
      using i(1,2) w3(1) w1 by simp
    have g3: "generated (new_doctor E) n w3 = generated (new_doctor E) n w1"
      by (rule generated_cong [OF reads_tape_new_doctor w3(2,3)])
    from Suc.IH [OF n _ run] have
      IH: "length (generated (new_doctor E) n w3) = n"
        "t_doctors (work w') = t_doctors (work w3) @
           zip [seq_doctor (work w3) ..< seq_doctor (work w3) + n]
             (generated (new_doctor E) n w3)"
        "ids' = (ids @ new_ids) @ [seq_doctor (work w3) ..< seq_doctor (work w3) + n]"
      by simp_all
    have z: "zip [?s ..< ?s + length batch + Suc n] (batch @ x # generated (new_doctor E) n w1) =
        zip [?s ..< ?s + length batch + 1] (batch @ [x]) @
        zip [?s + length batch + 1 ..< ?s + length batch + 1 + n] (generated (new_doctor E) n w1)"
      using zip_upt_append [of "batch @ [x]" "length batch + 1" ?s n
          "generated (new_doctor E) n w1"]
      by (simp add: add.assoc)
    have u: "[?s ..< ?s + length batch + Suc n] =
        [?s ..< ?s + length batch + 1] @ [?s + length batch + 1 ..< ?s + length batch + 1 + n]"
      using upt_add_eq_append [of ?s "?s + length batch + 1" n] by simp
    show ?thesis
      using IH G g3 s3 t3 z u i(1) w1 by simp
  next
    case False
    then have "\<not> ?N \<le> Suc a" using a by auto
    then have p: "?N \<le> Suc a \<longrightarrow> batch @ [x] = []" by simp
    from False rest have run: "doctors_loop E [Suc a ..< ?N] ids (batch @ [x]) w1 = (Ok ids', w')"
      by simp
    from Suc.IH [OF n p run] show ?thesis
      using G w1 by (simp add: add.assoc)
  qed
qed

lemma generate_doctors_Ok:
  assumes "generate_doctors E w = (Ok doctor_ids, w')"
  shows "length (generated (new_doctor E) (NUM_DOCTORS E) w) = NUM_DOCTORS E"
    and "t_doctors (work w') =
      t_doctors (work w) @ zip doctor_ids (generated (new_doctor E) (NUM_DOCTORS E) w)"
    and "doctor_ids = [seq_doctor (work w) ..< seq_doctor (work w) + NUM_DOCTORS E]"
proof -
  from assms obtain w1 ids w2 w3 where
    p: "py_print Out_generating_doctors w = (Ok (), w1)" and
    loop: "doctors_loop E [0 ..< NUM_DOCTORS E] [] [] w1 = (Ok ids, w2)" and
    fin: "py_print (Out_generated_doctors (length ids)) w2 = (Ok (), w3)" and
    ret: "py_return ids w3 = (Ok doctor_ids, w')"
    unfolding generate_doctors_def by (auto elim!: py_bind_cases)
  have w1: "work w1 = work w" "tape w1 = tape w" "tpos w1 = tpos w"
    using p by (auto simp: py_print_def)
  have w': "work w' = work w2" "doctor_ids = ids"
    using fin ret by (auto simp: py_print_def py_return_def)
  have g: "generated (new_doctor E) (NUM_DOCTORS E) w1 =
      generated (new_doctor E) (NUM_DOCTORS E) w"
    by (rule generated_cong [OF reads_tape_new_doctor w1(2,3)])
  from doctors_loop_Ok [OF _ _ loop, of "NUM_DOCTORS E"]
  show "length (generated (new_doctor E) (NUM_DOCTORS E) w) = NUM_DOCTORS E"
    and "t_doctors (work w') =
      t_doctors (work w) @ zip doctor_ids (generated (new_doctor E) (NUM_DOCTORS E) w)"
    and "doctor_ids = [seq_doctor (work w) ..< seq_doctor (work w) + NUM_DOCTORS E]"
    using w1 w' g by simp_all
qed

subsection \<open>Column widths\<close>













subsection \<open>Evaluating a run\<close>

lemmas licenses_inner_numeral =
  licenses_inner.simps(2) [where n = "pred_numeral k", folded numeral_eq_Suc, THEN fun_cong] for k

lemmas sample_loop_numeral =
  sample_loop.simps(2) [where k = "pred_numeral n", folded numeral_eq_Suc, THEN fun_cong] for n

lemmas run_simps =
  py_bind_def py_return_def py_raise_def py_print_def py_input_def draw_def sql_def
  insert_practices_returning_def insert_doctors_returning_def
  conn_close_def connect_to_db_def
  random_randint_def [THEN fun_cong] random_choice_def [THEN fun_cong]
  random_random_def [THEN fun_cong] random_sample_def [THEN fun_cong]
  sample_loop.simps [THEN fun_cong] sample_loop_numeral
  random_choices1_def [THEN fun_cong] fake_def [THEN fun_cong]
  fake_date_of_birth_def [THEN fun_cong] fake_date_between_def [THEN fun_cong]
  fake_numerify.simps [THEN fun_cong] fake_lexify.simps [THEN fun_cong]
  new_practice_def [THEN fun_cong] new_doctor_def [THEN fun_cong]
  new_license_def [THEN fun_cong] new_association_def [THEN fun_cong]
  practices_loop.simps [THEN fun_cong] doctors_loop.simps [THEN fun_cong]
  licenses_inner.simps [THEN fun_cong] licenses_outer.simps [THEN fun_cong]
  associations_inner.simps [THEN fun_cong] associations_outer.simps [THEN fun_cong]
  licenses_inner_numeral
  generate_practices_def [THEN fun_cong] generate_doctors_def [THEN fun_cong]
  generate_licenses_def [THEN fun_cong] generate_doctor_practices_def [THEN fun_cong]
  clear_tables_def [THEN fun_cong] main_def [THEN fun_cong]
  below_def digits_def ascii_letters_def Let_def
  lower_def lower_char_def replace_char_def
  STATES_def LICENSE_TYPES_def LICENSE_STATUSES_def ROLES_def PRACTICE_KINDS_def SPECIALTIES_def
  demo_env_def demo_world_def empty_tables_def

lemmas loop_simps = sample_loop.simps fake_numerify.simps fake_lexify.simps practices_loop.simps
  doctors_loop.simps licenses_inner.simps licenses_outer.simps associations_inner.simps
  associations_outer.simps

lemmas small_nat = numeral_2_eq_2 [symmetric] numeral_3_eq_3 [symmetric]

section \<open>The claims\<close>

subsection \<open>Licenses\<close>

lemma demo_licenses:
  "t_licenses (work (snd (generate_licenses demo_env [7] demo_world))) =
     [\<lparr>lic_doctor_id = 7, lic_number = ''ID-511535-dXf'',
        lic_type = ''State Controlled Substance'', lic_state = ''ID'',
        lic_issue_date = 734556, lic_expiry_date = 734994, lic_status = ''Active''\<rparr>,
      \<lparr>lic_doctor_id = 7, lic_number = ''MI-351153-XFB'', lic_type = ''DEA'',
        lic_state = ''MI'', lic_issue_date = 736362, lic_expiry_date = 738802,
        lic_status = ''Active''\<rparr>]"
  by (simp del: loop_simps add: run_simps)

text \<open>
  Claim C6. Every license row that \<open>generate_licenses\<close> adds to the table, whether the
  stage ends normally or raises, has an expiry date 365 to 3650 days after its issue
  date, hence strictly after it, and an issue date in the window from \<open>-15y\<close> to the
  day of the run.
\<close>

theorem license_dates:
  assumes "generate_licenses E doctor_ids w = (r, w')"
  shows "\<forall>x\<in>set (t_licenses (work w')).
           x \<in> set (t_licenses (work w)) \<or> license_dates_ok E x"
  by (rule generate_licenses_rows [OF returns_weaken [OF returns_new_license] assms]) simp

theorem license_dates_witness:
  "length (t_licenses (work (snd (generate_licenses demo_env [7] demo_world)))) = 2 \<and>
   list_all (license_dates_ok demo_env)
     (t_licenses (work (snd (generate_licenses demo_env [7] demo_world))))"
proof -
  have run: "generate_licenses demo_env [7] demo_world =
      (fst (generate_licenses demo_env [7] demo_world),
       snd (generate_licenses demo_env [7] demo_world))"
    by simp
  have "t_licenses (work demo_world) = []"
    by (simp add: demo_world_def empty_tables_def)
  with license_dates [OF run] show ?thesis
    by (simp add: demo_licenses list_all_iff)
qed

text \<open>
  Claim C10. Every license row that \<open>generate_licenses\<close> adds to the table has a
  number made of the row's own issuing state, a dash, six digits, a dash and three
  letters: the prefix and the state field come from the one draw of the state.
\<close>

theorem license_number_shape:
  assumes "generate_licenses E doctor_ids w = (r, w')"
  shows "\<forall>x\<in>set (t_licenses (work w')).
           x \<in> set (t_licenses (work w)) \<or> license_number_ok x"
  by (rule generate_licenses_rows [OF returns_weaken [OF returns_new_license] assms]) simp

theorem license_number_shape_witness:
  "map lic_number (t_licenses (work (snd (generate_licenses demo_env [7] demo_world)))) =
     [''ID-511535-dXf'', ''MI-351153-XFB''] \<and>
   list_all license_number_ok
     (t_licenses (work (snd (generate_licenses demo_env [7] demo_world))))"
proof -
  have run: "generate_licenses demo_env [7] demo_world =
      (fst (generate_licenses demo_env [7] demo_world),
       snd (generate_licenses demo_env [7] demo_world))"
    by simp
  have "t_licenses (work demo_world) = []"
    by (simp add: demo_world_def empty_tables_def)
  with license_number_shape [OF run] show ?thesis
    by (simp add: demo_licenses list_all_iff)
qed

subsection \<open>The confirmation gate\<close>

text \<open>
  Claim C9. When the connection is open and the answer read at the prompt is not \<open>y\<close>
  (in either case), \<open>main\<close> returns normally having done nothing but print that it
  connects, prompt, print that it is cancelled, and close the connection: the sink
  receives no statement (no TRUNCATE, no INSERT), its tables are as before, no generating
  function runs and no draw is taken.
\<close>

theorem cancelled_run:
  assumes "connectable w" and "stdin w = answer # rest" and "lower answer \<noteq> ''y''"
  shows "main E w =
    (Ok (), w\<lparr>trace := trace w @ [Print Out_connecting, Print Out_prompt, Print Out_cancelled, Close],
             stdin := rest\<rparr>)"
  using assms
  by (simp add: main_def py_bind_def py_print_def connect_to_db_def py_input_def conn_close_def)

theorem cancelled_run_witness:
  "main demo_env (demo_world\<lparr>stdin := [''no'']\<rparr>) =
    (Ok (), demo_world\<lparr>stdin := [],
       trace := [Print Out_connecting, Print Out_prompt, Print Out_cancelled, Close]\<rparr>)"
  using cancelled_run [of "demo_world\<lparr>stdin := [''no'']\<rparr>" "''no''" "[]" demo_env]
  by (simp add: demo_world_def lower_def lower_char_def)

subsection \<open>Affiliation dates\<close>

lemma same_day_rows:
  "t_doctor_practices (work (snd (generate_doctor_practices demo_env [7] [4] same_day_world))) =
     [\<lparr>dp_doctor_id = 7, dp_practice_id = 4, dp_role = ''Primary Care Physician'',
        dp_start_date = 736347, dp_end_date = Some 736347, dp_is_primary = True,
        dp_hours_per_week = 4\<rparr>]"
  by (simp del: loop_simps add: run_simps same_day_world_def)

lemma late_end_rows:
  "t_doctor_practices (work (snd (generate_doctor_practices demo_env [7] [4] late_end_world))) =
     [\<lparr>dp_doctor_id = 7, dp_practice_id = 4, dp_role = ''Primary Care Physician'',
        dp_start_date = 736347, dp_end_date = Some 740730, dp_is_primary = True,
        dp_hours_per_week = 4\<rparr>]"
  by (simp del: loop_simps add: run_simps late_end_world_def)

text \<open>
  Claim C3, as the specification states it, fails twice. On one tape the end date drawn
  is the start date itself (Faker's \<open>date_between\<close> includes both ends), so it is not
  strictly greater; on another the end date is the \<open>+2y\<close> day, 4383 days after a start
  date ten years back, so it is not within two years of the start date.
\<close>

theorem end_date_claim_counterexample:
  "\<not> list_all claimed_end_after_start
       (t_doctor_practices (work (snd (generate_doctor_practices demo_env [7] [4] same_day_world)))) \<and>
   \<not> list_all claimed_end_within_2y
       (t_doctor_practices (work (snd (generate_doctor_practices demo_env [7] [4] late_end_world))))"
  by (simp add: same_day_rows late_end_rows claimed_end_after_start_def claimed_end_within_2y_def)

text \<open>
  Claim C3, amended. Every affiliation row that \<open>generate_doctor_practices\<close> adds to the
  table, whether the stage ends normally or raises, and whose end date is not null, has
  an end date on or after its start date and no later than the \<open>+2y\<close> day, which is
  counted from the day of the run (not from the start date).
\<close>

theorem association_dates:
  assumes "generate_doctor_practices E doctor_ids practice_ids w = (r, w')"
  shows "\<forall>x\<in>set (t_doctor_practices (work w')).
           x \<in> set (t_doctor_practices (work w)) \<or> association_dates_ok E x"
  by (rule generate_doctor_practices_rows [OF returns_weaken [OF returns_new_association] assms])
     simp

theorem association_dates_witness:
  "map dp_end_date
     (t_doctor_practices (work (snd (generate_doctor_practices demo_env [7] [4] late_end_world)))) =
     [Some 740730] \<and>
   list_all (association_dates_ok demo_env)
     (t_doctor_practices (work (snd (generate_doctor_practices demo_env [7] [4] late_end_world))))"
proof -
  have run: "generate_doctor_practices demo_env [7] [4] late_end_world =
      (fst (generate_doctor_practices demo_env [7] [4] late_end_world),
       snd (generate_doctor_practices demo_env [7] [4] late_end_world))"
    by simp
  have "t_doctor_practices (work late_end_world) = []"
    by (simp add: late_end_world_def demo_world_def empty_tables_def)
  with association_dates [OF run] show ?thesis
    by (simp add: late_end_rows list_all_iff)
qed

subsection \<open>The dependents of one doctor\<close>

lemma demo_tables_empty:
  "t_licenses (work demo_world) = []" "t_doctor_practices (work demo_world) = []"
  "t_practices (work demo_world) = []" "t_doctors (work demo_world) = []"
  by (simp_all add: demo_world_def empty_tables_def)

lemma demo_licenses_result: "fst (generate_licenses demo_env [7] demo_world) = Ok ()"
  by (simp del: loop_simps add: run_simps small_nat)

lemma demo_associations:
  "(case generate_doctor_practices demo_env [7, 8] [4, 5, 6] demo_world of
      (r, w') \<Rightarrow> (r, t_doctor_practices (work w'))) =
     (Ok (),
       [\<lparr>dp_doctor_id = 7, dp_practice_id = 6, dp_role = ''Fellow'',
          dp_start_date = 736420, dp_end_date = None, dp_is_primary = True,
          dp_hours_per_week = 16\<rparr>,
        \<lparr>dp_doctor_id = 7, dp_practice_id = 5, dp_role = ''Department Head'',
          dp_start_date = 736712, dp_end_date = None, dp_is_primary = False,
          dp_hours_per_week = 32\<rparr>,
        \<lparr>dp_doctor_id = 8, dp_practice_id = 5, dp_role = ''Department Head'',
          dp_start_date = 737968, dp_end_date = None, dp_is_primary = True,
          dp_hours_per_week = 33\<rparr>,
        \<lparr>dp_doctor_id = 8, dp_practice_id = 6, dp_role = ''Fellow'',
          dp_start_date = 738932, dp_end_date = None, dp_is_primary = False,
          dp_hours_per_week = 18\<rparr>,
        \<lparr>dp_doctor_id = 8, dp_practice_id = 4, dp_role = ''Department Head'',
          dp_start_date = 736467, dp_end_date = None, dp_is_primary = False,
          dp_hours_per_week = 5\<rparr>])"
  by (simp del: loop_simps add: run_simps small_nat)

lemma demo_associations_one:
  "(case generate_doctor_practices demo_env [7] [4, 5, 6] demo_world of
      (r, w') \<Rightarrow> (r, t_doctor_practices (work w'))) =
     (Ok (),
       [\<lparr>dp_doctor_id = 7, dp_practice_id = 6, dp_role = ''Fellow'',
          dp_start_date = 736420, dp_end_date = None, dp_is_primary = True,
          dp_hours_per_week = 16\<rparr>,
        \<lparr>dp_doctor_id = 7, dp_practice_id = 5, dp_role = ''Department Head'',
          dp_start_date = 736712, dp_end_date = None, dp_is_primary = False,
          dp_hours_per_week = 32\<rparr>])"
  by (simp del: loop_simps add: run_simps small_nat)

text \<open>
  Claim C1. After \<open>generate_doctor_practices\<close> ends normally on distinct doctor
  identifiers, the affiliation rows it added for any doctor \<open>d\<close> hold exactly one
  primary row when there is any row, and that row is the first one generated for the
  doctor; a doctor with no row has no primary row.
\<close>

theorem one_primary_per_doctor:
  assumes "generate_doctor_practices E doctor_ids practice_ids w = (Ok u, w')"
    and "distinct doctor_ids"
  shows "length (filter dp_is_primary (affiliations_of d (new_associations w w'))) =
           (if affiliations_of d (new_associations w w') = [] then 0 else 1) \<and>
         (affiliations_of d (new_associations w w') \<noteq> [] \<longrightarrow>
            dp_is_primary (hd (affiliations_of d (new_associations w w'))))"
proof -
  from generate_doctor_practices_Ok [OF assms(1)] obtain groups where
    t: "t_doctor_practices (work w') = t_doctor_practices (work w) @ concat groups" and
    g: "list_all2 (association_group_ok E practice_ids) doctor_ids groups"
    by blast
  have new: "new_associations w w' = concat groups"
    by (simp add: new_associations_def t)
  have key: "\<And>d g. association_group_ok E practice_ids d g \<Longrightarrow> \<forall>r\<in>set g. dp_doctor_id r = d"
    by (simp add: association_group_ok_def)
  show ?thesis
  proof (cases "d \<in> set doctor_ids")
    case True
    from filter_groups_present [OF g key assms(2) True]
    have "association_group_ok E practice_ids d (affiliations_of d (new_associations w w'))"
      by (simp add: affiliations_of_def new)
    then show ?thesis by (intro primary_first) (simp add: association_group_ok_def)
  next
    case False
    from filter_groups_absent [OF g key False]
    show ?thesis by (simp add: affiliations_of_def new)
  qed
qed

theorem one_primary_per_doctor_witness:
  "fst (generate_doctor_practices demo_env [7, 8] [4, 5, 6] demo_world) = Ok () \<and>
   map dp_is_primary
     (affiliations_of 8 (new_associations demo_world
        (snd (generate_doctor_practices demo_env [7, 8] [4, 5, 6] demo_world)))) =
     [True, False, False] \<and>
   length (filter dp_is_primary
     (affiliations_of 8 (new_associations demo_world
        (snd (generate_doctor_practices demo_env [7, 8] [4, 5, 6] demo_world))))) = 1 \<and>
   dp_is_primary (hd
     (affiliations_of 8 (new_associations demo_world
        (snd (generate_doctor_practices demo_env [7, 8] [4, 5, 6] demo_world)))))"
proof -
  let ?run = "generate_doctor_practices demo_env [7, 8] [4, 5, 6] demo_world"
  have f: "fst ?run = Ok ()"
    using demo_associations by (simp add: case_prod_beta)
  then have r: "?run = (Ok (), snd ?run)"
    by (simp add: prod_eq_iff)
  have t: "t_doctor_practices (work (snd ?run)) =
       [\<lparr>dp_doctor_id = 7, dp_practice_id = 6, dp_role = ''Fellow'',
          dp_start_date = 736420, dp_end_date = None, dp_is_primary = True,
          dp_hours_per_week = 16\<rparr>,
        \<lparr>dp_doctor_id = 7, dp_practice_id = 5, dp_role = ''Department Head'',
          dp_start_date = 736712, dp_end_date = None, dp_is_primary = False,
          dp_hours_per_week = 32\<rparr>,
        \<lparr>dp_doctor_id = 8, dp_practice_id = 5, dp_role = ''Department Head'',
          dp_start_date = 737968, dp_end_date = None, dp_is_primary = True,
          dp_hours_per_week = 33\<rparr>,
        \<lparr>dp_doctor_id = 8, dp_practice_id = 6, dp_role = ''Fellow'',
          dp_start_date = 738932, dp_end_date = None, dp_is_primary = False,
          dp_hours_per_week = 18\<rparr>,
        \<lparr>dp_doctor_id = 8, dp_practice_id = 4, dp_role = ''Department Head'',
          dp_start_date = 736467, dp_end_date = None, dp_is_primary = False,
          dp_hours_per_week = 5\<rparr>]"
    using demo_associations by (simp add: case_prod_beta)
  have a: "map dp_is_primary (affiliations_of 8 (new_associations demo_world (snd ?run))) =
      [True, False, False]"
    by (simp add: affiliations_of_def new_associations_def t demo_tables_empty)
  have d: "distinct [7, 8 :: nat]" by simp
  from one_primary_per_doctor [OF r d, of 8] a f show ?thesis
    by auto
qed

text \<open>
  Claim C5. After the license stage and the affiliation stage end normally on distinct
  doctor identifiers and distinct practice identifiers, every doctor of the list has at
  least one and at most \<open>MAX_LICENSES_PER_DOCTOR\<close> licenses, and at most
  \<open>min (MAX_PRACTICES_PER_DOCTOR, number of practices)\<close> affiliations, whose practice
  identifiers are pairwise different.
\<close>

theorem dependents_per_doctor:
  assumes "generate_licenses E doctor_ids w1 = (Ok u1, w1')"
    and "generate_doctor_practices E doctor_ids practice_ids w2 = (Ok u2, w2')"
    and "distinct doctor_ids" and "distinct practice_ids" and "d \<in> set doctor_ids"
  shows "1 \<le> length (licenses_of d (new_licenses w1 w1')) \<and>
         int (length (licenses_of d (new_licenses w1 w1'))) \<le> MAX_LICENSES_PER_DOCTOR E \<and>
         int (length (affiliations_of d (new_associations w2 w2'))) \<le>
           min (MAX_PRACTICES_PER_DOCTOR E) (int (length practice_ids)) \<and>
         distinct (map dp_practice_id (affiliations_of d (new_associations w2 w2')))"
proof -
  from generate_licenses_Ok [OF assms(1)] obtain lg where
    lt: "t_licenses (work w1') = t_licenses (work w1) @ concat lg" and
    lg: "list_all2 (license_group_ok E) doctor_ids lg"
    by blast
  have lkey: "\<And>d g. license_group_ok E d g \<Longrightarrow> \<forall>r\<in>set g. lic_doctor_id r = d"
    by (simp add: license_group_ok_def)
  from filter_groups_present [OF lg lkey assms(3,5)]
  have 1: "license_group_ok E d (licenses_of d (new_licenses w1 w1'))"
    by (simp add: licenses_of_def new_licenses_def lt)
  from generate_doctor_practices_Ok [OF assms(2)] obtain ag where
    at: "t_doctor_practices (work w2') = t_doctor_practices (work w2) @ concat ag" and
    ag: "list_all2 (association_group_ok E practice_ids) doctor_ids ag"
    by blast
  have akey: "\<And>d g. association_group_ok E practice_ids d g \<Longrightarrow> \<forall>r\<in>set g. dp_doctor_id r = d"
    by (simp add: association_group_ok_def)
  from filter_groups_present [OF ag akey assms(3,5)]
  have 2: "association_group_ok E practice_ids d (affiliations_of d (new_associations w2 w2'))"
    by (simp add: affiliations_of_def new_associations_def at)
  from 1 2 assms(4) show ?thesis
    by (simp add: license_group_ok_def association_group_ok_def)
qed

theorem dependents_per_doctor_witness:
  "fst (generate_licenses demo_env [7] demo_world) = Ok () \<and>
   fst (generate_doctor_practices demo_env [7] [4, 5, 6] demo_world) = Ok () \<and>
   length (licenses_of 7 (new_licenses demo_world
      (snd (generate_licenses demo_env [7] demo_world)))) = 2 \<and>
   map dp_practice_id (affiliations_of 7 (new_associations demo_world
      (snd (generate_doctor_practices demo_env [7] [4, 5, 6] demo_world)))) = [6, 5] \<and>
   1 \<le> length (licenses_of 7 (new_licenses demo_world
      (snd (generate_licenses demo_env [7] demo_world)))) \<and>
   int (length (licenses_of 7 (new_licenses demo_world
      (snd (generate_licenses demo_env [7] demo_world))))) \<le> MAX_LICENSES_PER_DOCTOR demo_env \<and>
   int (length (affiliations_of 7 (new_associations demo_world
      (snd (generate_doctor_practices demo_env [7] [4, 5, 6] demo_world))))) \<le>
     min (MAX_PRACTICES_PER_DOCTOR demo_env) (int (length [4, 5, 6 :: nat])) \<and>
   distinct (map dp_practice_id (affiliations_of 7 (new_associations demo_world
      (snd (generate_doctor_practices demo_env [7] [4, 5, 6] demo_world)))))"
proof -
  let ?L = "generate_licenses demo_env [7] demo_world"
  let ?A = "generate_doctor_practices demo_env [7] [4, 5, 6] demo_world"
  have l: "?L = (Ok (), snd ?L)"
    using demo_licenses_result by (simp add: prod_eq_iff)
  have fa: "fst ?A = Ok ()"
    using demo_associations_one by (simp add: case_prod_beta)
  then have a: "?A = (Ok (), snd ?A)"
    by (simp add: prod_eq_iff)
  have t: "t_doctor_practices (work (snd ?A)) =
       [\<lparr>dp_doctor_id = 7, dp_practice_id = 6, dp_role = ''Fellow'',
          dp_start_date = 736420, dp_end_date = None, dp_is_primary = True,
          dp_hours_per_week = 16\<rparr>,
        \<lparr>dp_doctor_id = 7, dp_practice_id = 5, dp_role = ''Department Head'',
          dp_start_date = 736712, dp_end_date = None, dp_is_primary = False,
          dp_hours_per_week = 32\<rparr>]"
    using demo_associations_one by (simp add: case_prod_beta)
  have n: "length (licenses_of 7 (new_licenses demo_world (snd ?L))) = 2"
    by (simp add: licenses_of_def new_licenses_def demo_licenses demo_tables_empty)
  have p: "map dp_practice_id (affiliations_of 7 (new_associations demo_world (snd ?A))) = [6, 5]"
    by (simp add: affiliations_of_def new_associations_def t demo_tables_empty)
  have d: "distinct [7 :: nat]" "distinct [4, 5, 6 :: nat]" "7 \<in> set [7 :: nat]" by simp_all
  from dependents_per_doctor [OF l a d] n p demo_licenses_result fa show ?thesis
    by simp
qed

text \<open>
  Claim C7. With no practice identifier (and \<open>MAX_PRACTICES_PER_DOCTOR\<close> at least 1,
  as the script sets it), \<open>generate_doctor_practices\<close> returns normally for every list of
  doctors: it takes one draw per doctor for the count, samples nothing, sends no
  statement to the sink and reports 0 associations.
\<close>

theorem no_practices_no_affiliations:
  assumes "1 \<le> MAX_PRACTICES_PER_DOCTOR E"
  shows "generate_doctor_practices E doctor_ids [] w =
    (Ok (), w\<lparr>tpos := tpos w + length doctor_ids,
             trace := trace w @ [Print Out_generating_associations,
                                 Print (Out_generated_associations 0)]\<rparr>)"
  by (simp add: generate_doctor_practices_def py_bind_def py_print_def
      associations_outer_empty [OF assms] py_return_def)

theorem no_practices_no_affiliations_witness:
  "generate_doctor_practices demo_env [7, 8] [] demo_world =
    (Ok (), demo_world\<lparr>tpos := 2,
       trace := [Print Out_generating_associations, Print (Out_generated_associations 0)]\<rparr>)"
  using no_practices_no_affiliations [of demo_env "[7, 8]" demo_world]
  by (simp add: demo_env_def demo_world_def)

subsection \<open>Batched insertion\<close>

lemma demo_practices:
  "(case generate_practices demo_env demo_world of
      (r, w') \<Rightarrow> (r, map fst (t_practices (work w')))) = (Ok [1, 2, 3], [1, 2, 3])"
  by (simp del: loop_simps add: run_simps small_nat upt_conv_Cons)

lemma demo_doctors:
  "(case generate_doctors demo_env demo_world of
      (r, w') \<Rightarrow> (r, map fst (t_doctors (work w')))) = (Ok [1, 2, 3], [1, 2, 3])"
  by (simp del: loop_simps add: run_simps small_nat upt_conv_Cons)

text \<open>
  Claim C2. When \<open>generate_practices\<close> and \<open>generate_doctors\<close> end normally, for any
  target numbers and any batch sizes, each returns exactly as many identifiers as its
  target, all different, and the rows it added to its table are exactly the rows that
  as many calls of the row generator in a row produce from the same tape, in that order,
  each paired with its identifier: no row is dropped or doubled where one batch ends and
  the next begins, the last batch being whatever remains.
\<close>

theorem batched_insertion_complete:
  assumes "generate_practices E w = (Ok practice_ids, w')"
    and "generate_doctors E v = (Ok doctor_ids, v')"
  shows "length practice_ids = NUM_PRACTICES E \<and> distinct practice_ids \<and>
         length (generated (new_practice E) (NUM_PRACTICES E) w) = NUM_PRACTICES E \<and>
         t_practices (work w') =
           t_practices (work w) @
             zip practice_ids (generated (new_practice E) (NUM_PRACTICES E) w) \<and>
         length doctor_ids = NUM_DOCTORS E \<and> distinct doctor_ids \<and>
         length (generated (new_doctor E) (NUM_DOCTORS E) v) = NUM_DOCTORS E \<and>
         t_doctors (work v') =
           t_doctors (work v) @ zip doctor_ids (generated (new_doctor E) (NUM_DOCTORS E) v)"
  using generate_practices_Ok [OF assms(1)] generate_doctors_Ok [OF assms(2)]
  by simp

theorem batched_insertion_complete_witness:
  "fst (generate_practices demo_env demo_world) = Ok [1, 2, 3] \<and>
   fst (generate_doctors demo_env demo_world) = Ok [1, 2, 3] \<and>
   NUM_PRACTICES demo_env = 3 \<and> practice_batch_size demo_env = 2 \<and>
   NUM_DOCTORS demo_env = 3 \<and> doctor_batch_size demo_env = 2 \<and>
   length (t_practices (work (snd (generate_practices demo_env demo_world)))) = 3 \<and>
   length (t_doctors (work (snd (generate_doctors demo_env demo_world)))) = 3 \<and>
   t_practices (work (snd (generate_practices demo_env demo_world))) =
     zip [1, 2, 3] (generated (new_practice demo_env) 3 demo_world) \<and>
   t_doctors (work (snd (generate_doctors demo_env demo_world))) =
     zip [1, 2, 3] (generated (new_doctor demo_env) 3 demo_world)"
proof -
  let ?P = "generate_practices demo_env demo_world"
  let ?D = "generate_doctors demo_env demo_world"
  have fp: "fst ?P = Ok [1, 2, 3]" and lp: "map fst (t_practices (work (snd ?P))) = [1, 2, 3]"
    using demo_practices by (simp_all add: case_prod_beta)
  have fd: "fst ?D = Ok [1, 2, 3]" and ld: "map fst (t_doctors (work (snd ?D))) = [1, 2, 3]"
    using demo_doctors by (simp_all add: case_prod_beta)
  have p: "?P = (Ok [1, 2, 3], snd ?P)" using fp by (simp add: prod_eq_iff)
  have d: "?D = (Ok [1, 2, 3], snd ?D)" using fd by (simp add: prod_eq_iff)
  have n: "NUM_PRACTICES demo_env = 3" "practice_batch_size demo_env = 2"
    "NUM_DOCTORS demo_env = 3" "doctor_batch_size demo_env = 2"
    by (simp_all add: demo_env_def)
  have "length (map fst (t_practices (work (snd ?P)))) = 3"
    "length (map fst (t_doctors (work (snd ?D)))) = 3"
    by (simp_all only: lp ld) simp_all
  then have len: "length (t_practices (work (snd ?P))) = 3" "length (t_doctors (work (snd ?D))) = 3"
    by simp_all
  from batched_insertion_complete [OF p d] fp fd n len show ?thesis
    by (simp add: demo_tables_empty)
qed

subsection \<open>The widths of the columns\<close>



end
